theory Spec2Isabelle
  imports Complex_Main
begin

section \<open>The simulation core of brain-sim-learning, embedded in HOL\<close>

text \<open>
  The theory follows \<^verbatim>\<open>src/simulation/network.py\<close>, \<^verbatim>\<open>central_hub.py\<close> and
  \<^verbatim>\<open>learning.py\<close>. Python's \<^verbatim>\<open>float\<close> is read as \<open>real\<close> (no rounding, no NaN, no
  infinities), Python's \<^verbatim>\<open>int\<close> as \<open>int\<close>. So the model speaks of runs in which every float
  is finite: an argument that the source annotates \<^verbatim>\<open>float\<close> is a finite float (not an \<^verbatim>\<open>int\<close>
  too large for one, on which arithmetic with a float raises \<^verbatim>\<open>OverflowError\<close>), and no
  product or sum overflows. Objects that the program shares by reference
  (neurons and connections) live in a store and are named by their address; every method
  that mutates one of them takes the store and returns the new one. Regions, the hub and
  the learning algorithms are reached through one owner only and are passed by value. A
  method that can raise returns a sum, with the exception on the left.
\<close>

subsection \<open>Neuron, Signal, Connection (network.py)\<close>

type_synonym ref = nat

record Neuron =
  n_id :: string
  n_x :: real
  n_y :: real
  n_region_id :: string
  n_activity :: real
  n_threshold :: real
  n_potential :: real
  n_refractory :: int
  n_outgoing :: "ref list"
  n_incoming :: "ref list"
  n_radius :: real

record Signal =
  progress :: real
  strength :: real

record Connection =
  c_id :: string
  c_from_neuron :: ref
  c_to_neuron :: ref
  c_weight :: real
  c_activity :: real
  c_signals :: "Signal list"

text \<open>\<^verbatim>\<open>Neuron.receive_input\<close>: input is dropped while the neuron is refractory.\<close>

definition Neuron_receive_input :: "real \<Rightarrow> real \<Rightarrow> Neuron \<Rightarrow> Neuron" where
  "Neuron_receive_input amount weight n =
     (if n_refractory n > 0 then n
      else n\<lparr>n_potential := n_potential n + amount * weight\<rparr>)"

text \<open>\<^verbatim>\<open>Neuron._fire\<close>: returns the pairs (connection, strength) and the fired neuron.\<close>

definition Neuron_fire :: "Neuron \<Rightarrow> (ref \<times> real) list \<times> Neuron" where
  "Neuron_fire n =
     (let n' = n\<lparr>n_activity := 1, n_potential := 0, n_refractory := 5\<rparr>
      in (map (\<lambda>conn. (conn, n_activity n')) (n_outgoing n'), n'))"

text \<open>\<^verbatim>\<open>Neuron.update(decay_rate)\<close>, in the order of the source: refractory decay, the
  firing test, the decay of the potential.\<close>

definition Neuron_update :: "real \<Rightarrow> Neuron \<Rightarrow> (ref \<times> real) list \<times> Neuron" where
  "Neuron_update decay_rate n =
     (let n1 = (if n_refractory n > 0
                then n\<lparr>n_refractory := n_refractory n - 1, n_activity := n_activity n * 0.8\<rparr>
                else n);
          (signals, n2) = (if n_potential n1 \<ge> n_threshold n1 \<and> n_refractory n1 \<le> 0
                           then Neuron_fire n1 else ([], n1))
      in (signals, n2\<lparr>n_potential := n_potential n2 * (1 - decay_rate)\<rparr>))"

definition Neuron_stimulate :: "real \<Rightarrow> Neuron \<Rightarrow> Neuron" where
  "Neuron_stimulate strength' n = n\<lparr>n_potential := n_potential n + strength'\<rparr>"

text \<open>\<^verbatim>\<open>Connection.add_signal\<close>.\<close>

definition Connection_add_signal :: "real \<Rightarrow> Connection \<Rightarrow> Connection" where
  "Connection_add_signal strength' c =
     c\<lparr>c_signals := c_signals c @ [\<lparr>progress = 0, strength = strength'\<rparr>],
       c_activity := min 1 (c_activity c + 0.3)\<rparr>"

text \<open>The loop of \<^verbatim>\<open>Connection.update\<close> over the signals in flight, with its two
  accumulators \<^verbatim>\<open>arrived\<close> and \<^verbatim>\<open>remaining\<close>.\<close>

fun advance_signals ::
  "real \<Rightarrow> Signal list \<Rightarrow> Signal list \<times> Signal list \<Rightarrow> Signal list \<times> Signal list" where
  "advance_signals step [] (arrived, remaining) = (arrived, remaining)"
| "advance_signals step (signal # rest) (arrived, remaining) =
     (let signal' = signal\<lparr>progress := progress signal + step\<rparr>
      in if progress signal' \<ge> 1
         then advance_signals step rest (arrived @ [signal'], remaining)
         else advance_signals step rest (arrived, remaining @ [signal']))"

definition Connection_update :: "real \<Rightarrow> real \<Rightarrow> Connection \<Rightarrow> Signal list \<times> Connection" where
  "Connection_update speed_multiplier base_speed c =
     (let (arrived, remaining) = advance_signals (base_speed * speed_multiplier) (c_signals c) ([], [])
      in (arrived, c\<lparr>c_signals := remaining, c_activity := c_activity c * 0.95\<rparr>))"

text \<open>A connection updated \<open>k\<close> times in a row with the default arguments of
  \<^verbatim>\<open>Connection.update\<close> (\<^verbatim>\<open>speed_multiplier=1.0, base_speed=0.02\<close>); the first component is
  what the last of these updates returned.\<close>

fun Connection_ticks :: "nat \<Rightarrow> Connection \<Rightarrow> Signal list \<times> Connection" where
  "Connection_ticks 0 c = ([], c)"
| "Connection_ticks (Suc k) c = Connection_update 1 0.02 (snd (Connection_ticks k c))"

text \<open>The same accumulation in binary64 arithmetic. A double in \<open>[2\<^sup>-\<^sup>6, 2)\<close> is a multiple of
  \<open>2\<^sup>-\<^sup>5\<^sup>8\<close> and is written as that multiple; \<^verbatim>\<open>base_speed * speed_multiplier = 0.02 * 1.0\<close> is the
  double nearest to 0.02. The sum of two doubles is the exact sum rounded to 53 significant
  bits, to nearest, ties to even.\<close>

definition double_0_02 :: int where
  "double_0_02 = 5764607523034235"

function significant_bits :: "int \<Rightarrow> nat" where
  "significant_bits s = (if s \<le> 0 then 0 else Suc (significant_bits (s div 2)))"
  by pat_completeness auto
termination
  by (relation "measure nat") auto

definition round_to_53_bits :: "int \<Rightarrow> int" where
  "round_to_53_bits s =
     (let k = significant_bits s
      in if k \<le> 53 then s
         else (let g = 2 ^ (k - 53); q = s div g; r = s mod g
               in if 2 * r < g then g * q
                  else if 2 * r > g then g * (q + 1)
                  else if even q then g * q else g * (q + 1)))"

text \<open>The tick in which a signal at progress \<open>p\<close> after \<open>t\<close> updates arrives: the first update
  after which its progress is at least 1.0, that is \<open>2\<^sup>5\<^sup>8\<close> in the unit above.\<close>

fun binary64_arrival :: "nat \<Rightarrow> int \<Rightarrow> nat \<Rightarrow> nat option" where
  "binary64_arrival 0 p t = None"
| "binary64_arrival (Suc fuel) p t =
     (let p' = round_to_53_bits (p + double_0_02)
      in if p' \<ge> 2 ^ 58 then Some (Suc t) else binary64_arrival fuel p' (Suc t))"

text \<open>The objects that the closed instances below start from: a neuron at rest as the
  constructor makes it, and a connection with no signal in flight.\<close>

definition sample_neuron :: Neuron where
  "sample_neuron =
     \<lparr>n_id = ''frontal_0'', n_x = 0, n_y = 0, n_region_id = ''frontal'', n_activity = 0,
      n_threshold = 0.5, n_potential = 0, n_refractory = 0, n_outgoing = [], n_incoming = [],
      n_radius = 2\<rparr>"

definition sample_connection :: Connection where
  "sample_connection =
     \<lparr>c_id = ''conn_0'', c_from_neuron = 0, c_to_neuron = 1, c_weight = 1,
      c_activity = 0, c_signals = []\<rparr>"

subsection \<open>The store, the random generator and the call history\<close>

text \<open>The exceptions that the modelled code can raise.\<close>

datatype py_error = KeyError string | IndexError | ZeroDivisionError

text \<open>
  The calls whose order within \<^verbatim>\<open>Network.update\<close> is of interest are recorded in a history
  (a ghost variable: no code reads it): \<^verbatim>\<open>conn.update\<close> on a connection,
  \<^verbatim>\<open>conn.to_neuron.receive_input\<close> for a connection and its destination neuron,
  \<^verbatim>\<open>neuron.update\<close> on a neuron, and \<^verbatim>\<open>conn.add_signal\<close> for a neuron and one of its
  outgoing connections.
\<close>

datatype event =
    Ev_connection_update ref
  | Ev_receive_input ref ref
  | Ev_neuron_update ref
  | Ev_add_signal ref ref

text \<open>
  The store maps addresses to objects; \<open>h_next_neuron\<close> and \<open>h_next_conn\<close> are the next
  free addresses. The module-level generator of \<^verbatim>\<open>random\<close> is a fixed sequence of
  outcomes in \<open>[0, 1)\<close> and the number of draws made so far.
\<close>

record Heap =
  h_neurons :: "ref \<Rightarrow> Neuron"
  h_conns :: "ref \<Rightarrow> Connection"
  h_next_neuron :: ref
  h_next_conn :: ref
  h_random :: "nat \<Rightarrow> real"
  h_random_pos :: nat
  h_history :: "event list"

definition random_random :: "Heap \<Rightarrow> real \<times> Heap" where
  "random_random h = (h_random h (h_random_pos h), h\<lparr>h_random_pos := Suc (h_random_pos h)\<rparr>)"

text \<open>\<^verbatim>\<open>random.uniform(a, b)\<close> is \<^verbatim>\<open>a + (b - a) * random()\<close>.\<close>

definition random_uniform :: "real \<Rightarrow> real \<Rightarrow> Heap \<Rightarrow> real \<times> Heap" where
  "random_uniform a b h = (let (u, h') = random_random h in (a + (b - a) * u, h'))"

text \<open>
  \<^verbatim>\<open>random.shuffle\<close> is library code. It is modelled by what it is documented to do, driven
  by the same sequence of outcomes: \<open>randbelow n\<close> is an index below \<open>n\<close>, shuffle is the
  exchange loop from the last position down to the second.
\<close>

definition randbelow :: "nat \<Rightarrow> Heap \<Rightarrow> nat \<times> Heap" where
  "randbelow n h = (let (u, h') = random_random h in (min (n - 1) (nat \<lfloor>u * real n\<rfloor>), h'))"

fun shuffle_from :: "nat \<Rightarrow> 'a list \<Rightarrow> Heap \<Rightarrow> 'a list \<times> Heap" where
  "shuffle_from 0 xs h = (xs, h)"
| "shuffle_from (Suc i) xs h =
     (if i = 0 then (xs, h)
      else let (j, h') = randbelow (Suc i) h
           in shuffle_from i (xs[i := xs ! j, j := xs ! i]) h')"

definition random_shuffle :: "'a list \<Rightarrow> Heap \<Rightarrow> 'a list \<times> Heap" where
  "random_shuffle xs h = shuffle_from (length xs) xs h"

text \<open>A dictionary, in insertion order. \<^verbatim>\<open>d[k]\<close> raises \<^verbatim>\<open>KeyError\<close> on a missing key;
  \<^verbatim>\<open>d[k] = v\<close> replaces the value of a key that is present and appends a new key.\<close>

type_synonym ('k, 'v) dict = "('k \<times> 'v) list"

definition dict_getitem :: "(string, 'v) dict \<Rightarrow> string \<Rightarrow> py_error + 'v" where
  "dict_getitem d k = (case map_of d k of None \<Rightarrow> Inl (KeyError k) | Some v \<Rightarrow> Inr v)"

definition dict_get :: "('k, 'v) dict \<Rightarrow> 'k \<Rightarrow> 'v \<Rightarrow> 'v" where
  "dict_get d k dflt = (case map_of d k of None \<Rightarrow> dflt | Some v \<Rightarrow> v)"

fun dict_setitem :: "('k, 'v) dict \<Rightarrow> 'k \<Rightarrow> 'v \<Rightarrow> ('k, 'v) dict" where
  "dict_setitem [] k v = [(k, v)]"
| "dict_setitem ((k', v') # d) k v =
     (if k' = k then (k, v) # d else (k', v') # dict_setitem d k v)"

text \<open>A method call on the object stored under a key that is present.\<close>

fun dict_modify :: "('k, 'v) dict \<Rightarrow> 'k \<Rightarrow> ('v \<Rightarrow> 'v) \<Rightarrow> ('k, 'v) dict" where
  "dict_modify [] k f = []"
| "dict_modify ((k', v) # d) k f =
     (if k' = k then (k', f v) # d else (k', v) # dict_modify d k f)"

text \<open>The decimal numeral of a natural number, as the f-strings of the source write it.\<close>

function str_nat :: "nat \<Rightarrow> string" where
  "str_nat n = (if n < 10 then [''0123456789'' ! n]
                else str_nat (n div 10) @ [''0123456789'' ! (n mod 10)])"
  by pat_completeness auto
termination
  by (relation "measure id") auto

text \<open>Allocation of a new object, and the update of an object in place.\<close>

definition new_Neuron :: "Neuron \<Rightarrow> Heap \<Rightarrow> ref \<times> Heap" where
  "new_Neuron n h =
     (h_next_neuron h,
      h\<lparr>h_neurons := (h_neurons h)(h_next_neuron h := n), h_next_neuron := Suc (h_next_neuron h)\<rparr>)"

definition new_Connection :: "Connection \<Rightarrow> Heap \<Rightarrow> ref \<times> Heap" where
  "new_Connection c h =
     (h_next_conn h,
      h\<lparr>h_conns := (h_conns h)(h_next_conn h := c), h_next_conn := Suc (h_next_conn h)\<rparr>)"

definition upd_neuron :: "ref \<Rightarrow> (Neuron \<Rightarrow> Neuron) \<Rightarrow> Heap \<Rightarrow> Heap" where
  "upd_neuron nr f h = h\<lparr>h_neurons := (h_neurons h)(nr := f (h_neurons h nr))\<rparr>"

definition upd_conn :: "ref \<Rightarrow> (Connection \<Rightarrow> Connection) \<Rightarrow> Heap \<Rightarrow> Heap" where
  "upd_conn cr f h = h\<lparr>h_conns := (h_conns h)(cr := f (h_conns h cr))\<rparr>"

definition record_event :: "event \<Rightarrow> Heap \<Rightarrow> Heap" where
  "record_event e h = h\<lparr>h_history := h_history h @ [e]\<rparr>"

subsection \<open>Region (network.py)\<close>

record Region =
  r_id :: string
  r_name :: string
  r_color :: string
  r_relative_position :: "real \<times> real"
  r_relative_size :: real
  r_neuron_count :: int
  r_x :: real
  r_y :: real
  r_radius :: real
  r_neurons :: "ref list"
  r_total_activity :: real

text \<open>A constructor call either raises or returns the object. \<^verbatim>\<open>Region.__init__\<close> has no
  \<^verbatim>\<open>raise\<close> and no check of its arguments.\<close>

definition Region_init ::
  "string \<Rightarrow> string \<Rightarrow> string \<Rightarrow> real \<times> real \<Rightarrow> real \<Rightarrow> int \<Rightarrow> py_error + Region" where
  "Region_init id' name color relative_position relative_size neuron_count =
     Inr \<lparr>r_id = id', r_name = name, r_color = color,
          r_relative_position = relative_position, r_relative_size = relative_size,
          r_neuron_count = neuron_count, r_x = 0, r_y = 0, r_radius = 0,
          r_neurons = [], r_total_activity = 0\<rparr>"

text \<open>The body of the loop of \<^verbatim>\<open>Region.generate_neurons\<close>: two draws for the position, then
  the \<^verbatim>\<open>Neuron\<close> constructor, whose default factory of \<^verbatim>\<open>radius\<close> draws once more.\<close>

definition generate_neuron :: "nat \<Rightarrow> Region \<times> Heap \<Rightarrow> Region \<times> Heap" where
  "generate_neuron i = (\<lambda>(r, h).
     (let (u1, h1) = random_random h;
          angle = u1 * pi * 2;
          (u2, h2) = random_random h1;
          rr = u2 * r_radius r * 0.85;
          (rad, h3) = random_uniform 2 4 h2;
          (neuron, h4) = new_Neuron
             \<lparr>n_id = r_id r @ ''_'' @ str_nat i,
              n_x = r_x r + cos angle * rr, n_y = r_y r + sin angle * rr,
              n_region_id = r_id r, n_activity = 0, n_threshold = 0.5, n_potential = 0,
              n_refractory = 0, n_outgoing = [], n_incoming = [], n_radius = rad\<rparr> h3
      in (r\<lparr>r_neurons := r_neurons r @ [neuron]\<rparr>, h4)))"

definition Region_generate_neurons ::
  "(string, real) dict \<Rightarrow> Region \<times> Heap \<Rightarrow> py_error + (Region \<times> Heap)" where
  "Region_generate_neurons bounds' = (\<lambda>(r, h).
     (case dict_getitem bounds' ''x'' of Inl e \<Rightarrow> Inl e | Inr bx \<Rightarrow>
      case dict_getitem bounds' ''width'' of Inl e \<Rightarrow> Inl e | Inr bw \<Rightarrow>
      case dict_getitem bounds' ''y'' of Inl e \<Rightarrow> Inl e | Inr by' \<Rightarrow>
      case dict_getitem bounds' ''height'' of Inl e \<Rightarrow> Inl e | Inr bh \<Rightarrow>
        (let r1 = r\<lparr>r_x := bx + bw * fst (r_relative_position r),
                     r_y := by' + bh * snd (r_relative_position r),
                     r_radius := min bw bh * r_relative_size r\<rparr>
         in Inr (fold generate_neuron [0..<nat (r_neuron_count r1)] (r1, h)))))"

text \<open>\<^verbatim>\<open>Region.update\<close>: every neuron is updated with the default decay rate and its
  activity read right after; the mean is taken when the region has a neuron.\<close>

definition Region_update_neuron :: "ref \<Rightarrow> real \<times> Heap \<Rightarrow> real \<times> Heap" where
  "Region_update_neuron nr = (\<lambda>(total, h).
     (let h1 = record_event (Ev_neuron_update nr)
                 (upd_neuron nr (\<lambda>n. snd (Neuron_update 0.05 n)) h)
      in (total + n_activity (h_neurons h1 nr), h1)))"

definition Region_update :: "Region \<Rightarrow> Heap \<Rightarrow> Region \<times> Heap" where
  "Region_update r h =
     (let (total, h') = fold Region_update_neuron (r_neurons r) (0, h);
          total' = (if r_neurons r \<noteq> [] then total / real (length (r_neurons r)) else total)
      in (r\<lparr>r_total_activity := total'\<rparr>, h'))"

text \<open>A slice \<^verbatim>\<open>xs[:k]\<close>; a negative \<open>k\<close> counts from the end.\<close>

definition slice_to :: "int \<Rightarrow> 'a list \<Rightarrow> 'a list" where
  "slice_to k xs = (if k \<ge> 0 then take (nat k) xs else take (nat (int (length xs) + k)) xs)"

definition Region_stimulate :: "real \<Rightarrow> int \<Rightarrow> Region \<Rightarrow> Heap \<Rightarrow> Heap" where
  "Region_stimulate strength' count r h =
     (let (shuffled, h1) = random_shuffle (r_neurons r) h
      in fold (\<lambda>nr. upd_neuron nr (Neuron_stimulate strength'))
           (slice_to (min count (int (length shuffled))) shuffled) h1)"

subsection \<open>CentralHub (central\_hub.py)\<close>

record CentralHub =
  hub_relative_position :: "real \<times> real"
  hub_relative_size :: real
  hub_neuron_count :: int
  hub_output_size :: int
  hub_x :: real
  hub_y :: real
  hub_radius :: real
  hub_neurons :: "ref list"
  hub_state :: "real list"
  hub_region_connections :: "(string, ref list) dict"
  hub_modulation_weights :: "(string, real) dict"

text \<open>\<^verbatim>\<open>CentralHub.__init__\<close>: the state is a list of \<^verbatim>\<open>output_size\<close> zeros, empty for a size
  below 1. The list is built for every size here; the interpreter raises on a length that
  it cannot allocate.\<close>

definition CentralHub_init :: "real \<times> real \<Rightarrow> real \<Rightarrow> int \<Rightarrow> int \<Rightarrow> py_error + CentralHub" where
  "CentralHub_init relative_position relative_size neuron_count output_size =
     Inr \<lparr>hub_relative_position = relative_position, hub_relative_size = relative_size,
          hub_neuron_count = neuron_count, hub_output_size = output_size,
          hub_x = 0, hub_y = 0, hub_radius = 0, hub_neurons = [],
          hub_state = replicate (nat output_size) 0,
          hub_region_connections = [], hub_modulation_weights = []\<rparr>"

text \<open>\<^verbatim>\<open>a % b\<close> on integers raises on a zero divisor and otherwise takes the sign of the
  divisor, as \<open>mod\<close> on \<open>int\<close> does. An index into a list counts from the end when it is
  negative and raises when it is out of range.\<close>

definition py_mod :: "int \<Rightarrow> int \<Rightarrow> py_error + int" where
  "py_mod a b = (if b = 0 then Inl ZeroDivisionError else Inr (a mod b))"

definition list_index :: "'a list \<Rightarrow> int \<Rightarrow> py_error + nat" where
  "list_index xs i =
     (if 0 \<le> i \<and> i < int (length xs) then Inr (nat i)
      else if i < 0 \<and> - int (length xs) \<le> i then Inr (nat (int (length xs) + i))
      else Inl IndexError)"

text \<open>The loop \<^verbatim>\<open>for i, activity in enumerate(region_activities):
  self.state[i % self.output_size] += activity\<close>.\<close>

fun distribute :: "int \<Rightarrow> (nat \<times> real) list \<Rightarrow> real list \<Rightarrow> py_error + real list" where
  "distribute output_size [] state = Inr state"
| "distribute output_size ((i, activity) # rest) state =
     (case py_mod (int i) output_size of Inl e \<Rightarrow> Inl e | Inr k \<Rightarrow>
      case list_index state k of Inl e \<Rightarrow> Inl e | Inr j \<Rightarrow>
        distribute output_size rest (state[j := state ! j + activity]))"

text \<open>\<^verbatim>\<open>max\<close> of a list. The source calls it behind the guard \<^verbatim>\<open>if self.state\<close>, on a list
  that is not empty; the first equation is never reached from there.\<close>

fun py_max :: "real list \<Rightarrow> real" where
  "py_max [] = 0"
| "py_max (x # xs) = fold max xs x"

definition CentralHub_aggregate ::
  "(string, Region) dict \<Rightarrow> CentralHub \<Rightarrow> py_error + (real list \<times> CentralHub)" where
  "CentralHub_aggregate regions' hub' =
     (let region_activities =
            map (\<lambda>(region_id, region).
                   r_total_activity region * dict_get (hub_modulation_weights hub') region_id 1)
                regions'
      in case distribute (hub_output_size hub') (enumerate 0 region_activities)
                (replicate (nat (hub_output_size hub')) 0) of
           Inl e \<Rightarrow> Inl e
         | Inr state \<Rightarrow>
            (let max_val = (if state \<noteq> [] then py_max state else 1);
                 state' = (if max_val > 0 then map (\<lambda>v. min 1 (v / max max_val 1)) state
                           else state)
             in Inr (state', hub'\<lparr>hub_state := state'\<rparr>)))"

subsection \<open>Network (network.py)\<close>

record Network =
  bounds :: "(string, real) dict"
  regions :: "(string, Region) dict"
  hub :: "CentralHub option"
  connections :: "ref list"
  all_neurons :: "ref list"
  total_signals :: int
  firing_rate :: int
  active_neurons :: int

record region_config =
  cfg_name :: string
  cfg_color :: string
  cfg_position :: "real \<times> real"
  cfg_size :: real

definition DEFAULT_REGIONS :: "(string, region_config) dict" where
  "DEFAULT_REGIONS =
     [(''frontal'', \<lparr>cfg_name = ''Frontal'', cfg_color = ''#00ffff'',
                     cfg_position = (0.25, 0.25), cfg_size = 0.18\<rparr>),
      (''parietal'', \<lparr>cfg_name = ''Parietal'', cfg_color = ''#4488ff'',
                      cfg_position = (0.65, 0.2), cfg_size = 0.16\<rparr>),
      (''temporal'', \<lparr>cfg_name = ''Temporal'', cfg_color = ''#00ff88'',
                      cfg_position = (0.4, 0.65), cfg_size = 0.15\<rparr>),
      (''occipital'', \<lparr>cfg_name = ''Occipital'', cfg_color = ''#ff00ff'',
                       cfg_position = (0.8, 0.45), cfg_size = 0.14\<rparr>),
      (''motor'', \<lparr>cfg_name = ''Motor'', cfg_color = ''#ffff00'',
                   cfg_position = (0.2, 0.45), cfg_size = 0.12\<rparr>),
      (''sensory'', \<lparr>cfg_name = ''Sensory'', cfg_color = ''#ff8844'',
                     cfg_position = (0.45, 0.4), cfg_size = 0.14\<rparr>)]"

definition default_bounds :: "(string, real) dict" where
  "default_bounds = [(''x'', 100), (''y'', 50), (''width'', 600), (''height'', 500)]"

text \<open>The first loop of \<^verbatim>\<open>Network._initialize\<close>, over the items of the region catalogue.
  \<^verbatim>\<open>Region\<close> is called without \<^verbatim>\<open>neuron_count\<close>, so with its default 60.\<close>

fun create_regions ::
  "(string, region_config) dict \<Rightarrow> Network \<times> Heap \<Rightarrow> py_error + (Network \<times> Heap)" where
  "create_regions [] (net, h) = Inr (net, h)"
| "create_regions ((id', config) # rest) (net, h) =
     (case Region_init id' (cfg_name config) (cfg_color config) (cfg_position config)
             (cfg_size config) 60 of
        Inl e \<Rightarrow> Inl e
      | Inr region \<Rightarrow>
         (case Region_generate_neurons (bounds net) (region, h) of
            Inl e \<Rightarrow> Inl e
          | Inr (region', h') \<Rightarrow>
             create_regions rest (net\<lparr>regions := dict_setitem (regions net) id' region'\<rparr>, h')))"

text \<open>\<^verbatim>\<open>Network._create_connections\<close>. The loops thread the local counter \<^verbatim>\<open>conn_id\<close>, the
  network and the store. \<open>add_connection\<close> is the body that both kinds of loop share: a new
  \<^verbatim>\<open>Connection\<close>, appended to the collection, to the outgoing list of its source and to the
  incoming list of its destination.\<close>

type_synonym build_state = "nat \<times> Network \<times> Heap"

definition add_connection :: "ref \<Rightarrow> ref \<Rightarrow> build_state \<Rightarrow> build_state" where
  "add_connection n1 n2 = (\<lambda>(conn_id, net, h).
     (let (conn, h1) = new_Connection
             \<lparr>c_id = ''conn_'' @ str_nat conn_id, c_from_neuron = n1, c_to_neuron = n2,
              c_weight = 1, c_activity = 0, c_signals = []\<rparr> h;
          net1 = net\<lparr>connections := connections net @ [conn]\<rparr>;
          h2 = upd_neuron n1 (\<lambda>n. n\<lparr>n_outgoing := n_outgoing n @ [conn]\<rparr>) h1;
          h3 = upd_neuron n2 (\<lambda>n. n\<lparr>n_incoming := n_incoming n @ [conn]\<rparr>) h2
      in (conn_id + 1, net1, h3)))"

text \<open>\<^verbatim>\<open>if i != j and random.random() < 0.15\<close>: no draw is made when \<open>i = j\<close>.\<close>

definition intra_pair :: "nat \<times> ref \<Rightarrow> nat \<times> ref \<Rightarrow> build_state \<Rightarrow> build_state" where
  "intra_pair = (\<lambda>(i, n1) (j, n2) (conn_id, net, h).
     (if i \<noteq> j
      then (let (u, h1) = random_random h
            in if u < 0.15 then add_connection n1 n2 (conn_id, net, h1) else (conn_id, net, h1))
      else (conn_id, net, h)))"

definition intra_region :: "Region \<Rightarrow> build_state \<Rightarrow> build_state" where
  "intra_region region st =
     fold (\<lambda>p1. fold (intra_pair p1) (enumerate 0 (r_neurons region)))
          (enumerate 0 (r_neurons region)) st"

definition inter_pair :: "ref \<Rightarrow> ref \<Rightarrow> build_state \<Rightarrow> build_state" where
  "inter_pair n1 n2 = (\<lambda>(conn_id, net, h).
     (let (u, h1) = random_random h
      in if u < 0.05 then add_connection n1 n2 (conn_id, net, h1) else (conn_id, net, h1)))"

definition inter_region :: "Region \<Rightarrow> Region \<Rightarrow> build_state \<Rightarrow> build_state" where
  "inter_region r1 r2 st =
     fold (\<lambda>n1. fold (inter_pair n1) (r_neurons r2)) (r_neurons r1) st"

text \<open>The loop over \<^verbatim>\<open>enumerate(region_ids)\<close> and \<^verbatim>\<open>region_ids[i+1:]\<close>: each region with every
  later one. The keys of a dictionary are distinct, so \<^verbatim>\<open>self.regions[id]\<close> is the value
  listed with the key.\<close>

fun inter_regions :: "(string, Region) dict \<Rightarrow> build_state \<Rightarrow> build_state" where
  "inter_regions [] st = st"
| "inter_regions ((id1, r1) # rest) st =
     inter_regions rest (fold (\<lambda>(id2, r2). inter_region r1 r2) rest st)"

definition Network_create_connections :: "Network \<times> Heap \<Rightarrow> Network \<times> Heap" where
  "Network_create_connections = (\<lambda>(net, h).
     (let st1 = fold intra_region (map snd (regions net)) (0, net, h);
          (conn_id, net2, h2) = inter_regions (regions net) st1
      in (net2, h2)))"

definition Network_initialize :: "Network \<times> Heap \<Rightarrow> py_error + (Network \<times> Heap)" where
  "Network_initialize = (\<lambda>(net, h).
     (case create_regions DEFAULT_REGIONS (net, h) of
        Inl e \<Rightarrow> Inl e
      | Inr (net1, h1) \<Rightarrow>
         (let net2 = fold (\<lambda>region n. n\<lparr>all_neurons := all_neurons n @ r_neurons region\<rparr>)
                       (map snd (regions net1)) net1
          in Inr (Network_create_connections (net2, h1)))))"

text \<open>\<^verbatim>\<open>Network.__init__(bounds=None)\<close>; \<^verbatim>\<open>bounds or {...}\<close> takes the default for \<^verbatim>\<open>None\<close>
  and for the empty dictionary.\<close>

definition Network_init :: "(string, real) dict option \<Rightarrow> Heap \<Rightarrow> py_error + (Network \<times> Heap)" where
  "Network_init bounds' h =
     Network_initialize
       (\<lparr>bounds = (case bounds' of None \<Rightarrow> default_bounds
                   | Some b \<Rightarrow> if b = [] then default_bounds else b),
         regions = [], hub = None, connections = [], all_neurons = [],
         total_signals = 0, firing_rate = 0, active_neurons = 0\<rparr>, h)"

text \<open>\<^verbatim>\<open>Network.update\<close>. First loop: every connection is updated and what arrived is
  handed to the destination neuron.\<close>

definition deliver :: "ref \<Rightarrow> Signal \<Rightarrow> Heap \<Rightarrow> Heap" where
  "deliver cr signal h =
     (let conn = h_conns h cr
      in record_event (Ev_receive_input cr (c_to_neuron conn))
           (upd_neuron (c_to_neuron conn)
              (Neuron_receive_input (strength signal) (c_weight conn)) h))"

definition update_connection :: "real \<Rightarrow> ref \<Rightarrow> Heap \<Rightarrow> Heap" where
  "update_connection speed_multiplier cr h =
     (let (arrived, conn') = Connection_update speed_multiplier 0.02 (h_conns h cr);
          h1 = record_event (Ev_connection_update cr) (h\<lparr>h_conns := (h_conns h)(cr := conn')\<rparr>)
      in fold (deliver cr) arrived h1)"

text \<open>Second loop: a region is updated, then every neuron of it whose activity exceeds 0.9
  puts a signal on each of its outgoing connections.\<close>

definition emit_signal :: "ref \<Rightarrow> ref \<Rightarrow> Network \<times> Heap \<Rightarrow> Network \<times> Heap" where
  "emit_signal nr cr = (\<lambda>(net, h).
     (net\<lparr>total_signals := total_signals net + 1\<rparr>,
      record_event (Ev_add_signal nr cr)
        (upd_conn cr (Connection_add_signal (n_activity (h_neurons h nr))) h)))"

definition emit_neuron :: "ref \<Rightarrow> Network \<times> Heap \<Rightarrow> Network \<times> Heap" where
  "emit_neuron nr = (\<lambda>(net, h).
     (if n_activity (h_neurons h nr) > 0.9
      then fold (emit_signal nr) (n_outgoing (h_neurons h nr)) (net, h)
      else (net, h)))"

fun update_regions ::
  "(string, Region) dict \<Rightarrow> Network \<times> Heap \<Rightarrow> (string, Region) dict \<times> Network \<times> Heap" where
  "update_regions [] (net, h) = ([], net, h)"
| "update_regions ((rid, r) # rest) (net, h) =
     (let (r', h1) = Region_update r h;
          (net2, h2) = fold emit_neuron (r_neurons r') (net, h1);
          (rest', net3, h3) = update_regions rest (net2, h2)
      in ((rid, r') # rest', net3, h3))"

definition Network_update :: "real \<Rightarrow> Network \<times> Heap \<Rightarrow> Network \<times> Heap" where
  "Network_update speed_multiplier = (\<lambda>(net, h).
     (let h1 = fold (update_connection speed_multiplier) (connections net) h;
          (regions', net2, h2) = update_regions (regions net) (net, h1);
          net3 = net2\<lparr>regions := regions'\<rparr>
      in (net3\<lparr>active_neurons :=
                 int (length (filter (\<lambda>nr. n_activity (h_neurons h2 nr) > 0.1) (all_neurons net3)))\<rparr>,
          h2)))"

text \<open>\<^verbatim>\<open>Network.stimulate_region\<close> returns \<^verbatim>\<open>None\<close> on both paths (the unit value here);
  \<^verbatim>\<open>Region.stimulate\<close> is called with its default \<^verbatim>\<open>count=5\<close>.\<close>

definition Network_stimulate_region ::
  "string \<Rightarrow> real \<Rightarrow> Network \<times> Heap \<Rightarrow> unit \<times> Network \<times> Heap" where
  "Network_stimulate_region region_id strength' = (\<lambda>(net, h).
     (case map_of (regions net) region_id of
        Some region \<Rightarrow> ((), net, Region_stimulate strength' 5 region h)
      | None \<Rightarrow> ((), net, h)))"

subsection \<open>Learning (learning.py)\<close>

text \<open>
  An algorithm object keeps a reference to the network; here the network and the store are
  arguments of its methods. Neither constructor checks an argument.
\<close>

record HebbianLearning =
  hl_learning_rate :: real
  hl_enabled :: bool
  hl_decay_rate :: real
  hl_max_weight :: real
  hl_min_weight :: real

record RewardBasedLearning =
  rl_learning_rate :: real
  rl_enabled :: bool
  rl_trace_decay :: real
  rl_max_weight :: real
  rl_min_weight :: real
  rl_traces :: "string \<rightharpoonup> real"

definition HebbianLearning_init ::
  "real \<Rightarrow> real \<Rightarrow> real \<Rightarrow> real \<Rightarrow> py_error + HebbianLearning" where
  "HebbianLearning_init learning_rate decay_rate max_weight min_weight =
     Inr \<lparr>hl_learning_rate = learning_rate, hl_enabled = False, hl_decay_rate = decay_rate,
          hl_max_weight = max_weight, hl_min_weight = min_weight\<rparr>"

text \<open>The body of the loop of \<^verbatim>\<open>HebbianLearning.update\<close>.\<close>

definition hebbian_step :: "HebbianLearning \<Rightarrow> ref \<Rightarrow> Heap \<Rightarrow> Heap" where
  "hebbian_step alg cr h =
     (let conn = h_conns h cr;
          pre = n_activity (h_neurons h (c_from_neuron conn));
          post = n_activity (h_neurons h (c_to_neuron conn));
          delta = hl_learning_rate alg * pre * post;
          decay = hl_decay_rate alg * (c_weight conn - 1);
          w = c_weight conn + (delta - decay)
      in upd_conn cr (\<lambda>c. c\<lparr>c_weight := max (hl_min_weight alg) (min (hl_max_weight alg) w)\<rparr>) h)"

definition HebbianLearning_update :: "HebbianLearning \<Rightarrow> Network \<times> Heap \<Rightarrow> Heap" where
  "HebbianLearning_update alg = (\<lambda>(net, h).
     (if \<not> hl_enabled alg then h else fold (hebbian_step alg) (connections net) h))"

definition HebbianLearning_apply_reward ::
  "real \<Rightarrow> HebbianLearning \<Rightarrow> Network \<times> Heap \<Rightarrow> Heap" where
  "HebbianLearning_apply_reward reward alg = (\<lambda>(net, h). h)"

definition RewardBasedLearning_init ::
  "Network \<times> Heap \<Rightarrow> real \<Rightarrow> real \<Rightarrow> real \<Rightarrow> real \<Rightarrow> py_error + RewardBasedLearning" where
  "RewardBasedLearning_init = (\<lambda>(net, h) learning_rate trace_decay max_weight min_weight.
     Inr \<lparr>rl_learning_rate = learning_rate, rl_enabled = False, rl_trace_decay = trace_decay,
          rl_max_weight = max_weight, rl_min_weight = min_weight,
          rl_traces = fold (\<lambda>cr t. t(c_id (h_conns h cr) \<mapsto> 0)) (connections net) Map.empty\<rparr>)"

definition traces_get :: "(string \<rightharpoonup> real) \<Rightarrow> string \<Rightarrow> real \<Rightarrow> real" where
  "traces_get t k dflt = (case t k of None \<Rightarrow> dflt | Some v \<Rightarrow> v)"

definition RewardBasedLearning_update ::
  "RewardBasedLearning \<Rightarrow> Network \<times> Heap \<Rightarrow> RewardBasedLearning" where
  "RewardBasedLearning_update alg = (\<lambda>(net, h).
     (if \<not> rl_enabled alg then alg
      else fold (\<lambda>cr a.
             (let conn = h_conns h cr;
                  pre = n_activity (h_neurons h (c_from_neuron conn));
                  post = n_activity (h_neurons h (c_to_neuron conn));
                  current_trace = traces_get (rl_traces a) (c_id conn) 0
              in a\<lparr>rl_traces := (rl_traces a)(c_id conn \<mapsto>
                                     current_trace * rl_trace_decay a + pre * post)\<rparr>))
           (connections net) alg))"

text \<open>The body of the first loop of \<^verbatim>\<open>RewardBasedLearning.apply_reward\<close>. The product
  \<^verbatim>\<open>learning_rate * trace * reward\<close> is that of finite numbers; in the program a trace or a
  rate that is infinite makes it NaN for the reward 0, and the clamp of a NaN is
  \<^verbatim>\<open>max_weight\<close>.\<close>

definition reward_step :: "RewardBasedLearning \<Rightarrow> real \<Rightarrow> ref \<Rightarrow> Heap \<Rightarrow> Heap" where
  "reward_step alg reward cr h =
     (let conn = h_conns h cr;
          trace = traces_get (rl_traces alg) (c_id conn) 0;
          delta = rl_learning_rate alg * trace * reward;
          w = c_weight conn + delta
      in upd_conn cr (\<lambda>c. c\<lparr>c_weight := max (rl_min_weight alg) (min (rl_max_weight alg) w)\<rparr>) h)"

text \<open>\<^verbatim>\<open>apply_reward\<close> returns at once when the algorithm is disabled; otherwise the weights
  are updated and then every trace is halved.\<close>

definition RewardBasedLearning_apply_reward ::
  "real \<Rightarrow> RewardBasedLearning \<Rightarrow> Network \<times> Heap \<Rightarrow> RewardBasedLearning \<times> Heap" where
  "RewardBasedLearning_apply_reward reward alg = (\<lambda>(net, h).
     (if \<not> rl_enabled alg then (alg, h)
      else (alg\<lparr>rl_traces := (\<lambda>conn_id. map_option (\<lambda>t. t * 0.5) (rl_traces alg conn_id))\<rparr>,
            fold (reward_step alg reward) (connections net) h)))"

datatype LearningAlgorithm = Hebbian HebbianLearning | RewardBased RewardBasedLearning

fun LearningAlgorithm_enable :: "LearningAlgorithm \<Rightarrow> LearningAlgorithm" where
  "LearningAlgorithm_enable (Hebbian a) = Hebbian (a\<lparr>hl_enabled := True\<rparr>)"
| "LearningAlgorithm_enable (RewardBased a) = RewardBased (a\<lparr>rl_enabled := True\<rparr>)"

fun LearningAlgorithm_disable :: "LearningAlgorithm \<Rightarrow> LearningAlgorithm" where
  "LearningAlgorithm_disable (Hebbian a) = Hebbian (a\<lparr>hl_enabled := False\<rparr>)"
| "LearningAlgorithm_disable (RewardBased a) = RewardBased (a\<lparr>rl_enabled := False\<rparr>)"

record LearningManager =
  lm_algorithms :: "(string, LearningAlgorithm) dict"
  lm_active_algorithm :: "string option"

definition LearningManager_init :: LearningManager where
  "LearningManager_init = \<lparr>lm_algorithms = [], lm_active_algorithm = None\<rparr>"

definition LearningManager_add_algorithm ::
  "string \<Rightarrow> LearningAlgorithm \<Rightarrow> LearningManager \<Rightarrow> LearningManager" where
  "LearningManager_add_algorithm name algorithm m =
     m\<lparr>lm_algorithms := dict_setitem (lm_algorithms m) name algorithm\<rparr>"

text \<open>The test \<^verbatim>\<open>self.active_algorithm and self.active_algorithm in self.algorithms\<close>:
  \<^verbatim>\<open>None\<close> and the empty string are false.\<close>

definition active_in_registry :: "LearningManager \<Rightarrow> string option" where
  "active_in_registry m =
     (case lm_active_algorithm m of
        None \<Rightarrow> None
      | Some a \<Rightarrow> if a \<noteq> [] \<and> map_of (lm_algorithms m) a \<noteq> None then Some a else None)"

text \<open>\<^verbatim>\<open>LearningManager.set_active\<close> returns \<^verbatim>\<open>None\<close> on both paths (the unit value here).\<close>

definition LearningManager_set_active :: "string \<Rightarrow> LearningManager \<Rightarrow> unit \<times> LearningManager" where
  "LearningManager_set_active name m =
     (case map_of (lm_algorithms m) name of
        None \<Rightarrow> ((), m)
      | Some _ \<Rightarrow>
         (let m1 = (case active_in_registry m of
                      None \<Rightarrow> m
                    | Some a \<Rightarrow>
                       m\<lparr>lm_algorithms :=
                           dict_modify (lm_algorithms m) a LearningAlgorithm_disable\<rparr>);
              m2 = m1\<lparr>lm_active_algorithm := Some name\<rparr>
          in ((), m2\<lparr>lm_algorithms :=
                      dict_modify (lm_algorithms m2) name LearningAlgorithm_enable\<rparr>)))"

subsection \<open>Reading the call history\<close>








subsection \<open>A small network for the closed instances\<close>

text \<open>One region with two neurons, connected in both directions; the signal on connection 0
  is about to arrive at neuron 1.\<close>

definition sample_network :: Network where
  "sample_network =
     \<lparr>bounds = default_bounds,
      regions = [(''frontal'',
         \<lparr>r_id = ''frontal'', r_name = ''Frontal'', r_color = ''#00ffff'',
          r_relative_position = (0.25, 0.25), r_relative_size = 0.18, r_neuron_count = 2,
          r_x = 250, r_y = 175, r_radius = 90, r_neurons = [0, 1], r_total_activity = 0\<rparr>)],
      hub = None, connections = [0, 1], all_neurons = [0, 1],
      total_signals = 0, firing_rate = 0, active_neurons = 0\<rparr>"

definition sample_heap :: Heap where
  "sample_heap =
     \<lparr>h_neurons = (\<lambda>_. sample_neuron)
        (0 := sample_neuron\<lparr>n_outgoing := [0], n_incoming := [1]\<rparr>,
         1 := sample_neuron\<lparr>n_id := ''frontal_1'', n_outgoing := [1], n_incoming := [0]\<rparr>),
      h_conns = (\<lambda>_. sample_connection)
        (0 := sample_connection\<lparr>c_signals := [\<lparr>progress = 0.99, strength = 1\<rparr>]\<rparr>,
         1 := sample_connection\<lparr>c_id := ''conn_1'', c_from_neuron := 1, c_to_neuron := 0\<rparr>),
      h_next_neuron = 2, h_next_conn = 2, h_random = (\<lambda>_. 0), h_random_pos = 0,
      h_history = []\<rparr>"


text \<open>A region and a hub for the closed instances; the hub as its constructor makes it, for
  a given \<^verbatim>\<open>output_size\<close>, with the modulation weight that \<^verbatim>\<open>connect_to_regions\<close> sets.\<close>

definition sample_region :: Region where
  "sample_region =
     \<lparr>r_id = ''frontal'', r_name = ''Frontal'', r_color = ''#00ffff'',
      r_relative_position = (0.25, 0.25), r_relative_size = 0.18, r_neuron_count = 2,
      r_x = 250, r_y = 175, r_radius = 90, r_neurons = [0, 1], r_total_activity = 0\<rparr>"

definition sample_hub :: "int \<Rightarrow> CentralHub" where
  "sample_hub output_size =
     \<lparr>hub_relative_position = (0.45, 0.45), hub_relative_size = 0.08,
      hub_neuron_count = 20, hub_output_size = output_size,
      hub_x = 0, hub_y = 0, hub_radius = 0, hub_neurons = [],
      hub_state = replicate (nat output_size) 0,
      hub_region_connections = [], hub_modulation_weights = [(''frontal'', 1)]\<rparr>"

text \<open>The algorithm that \<^verbatim>\<open>HebbianLearning(network)\<close> constructs, with its default parameters.\<close>

definition default_hebbian :: HebbianLearning where
  "default_hebbian =
     \<lparr>hl_learning_rate = 0.01, hl_enabled = False, hl_decay_rate = 0.001,
      hl_max_weight = 2, hl_min_weight = 0.1\<rparr>"

text \<open>The premise of the claim: both ends of a connection have activity 1.\<close>

definition both_active :: "Heap \<Rightarrow> ref \<Rightarrow> bool" where
  "both_active h cr =
     (n_activity (h_neurons h (c_from_neuron (h_conns h cr))) = 1 \<and>
      n_activity (h_neurons h (c_to_neuron (h_conns h cr))) = 1)"

text \<open>The small network with both neurons at activity 1.\<close>

definition active_heap :: Heap where
  "active_heap = sample_heap\<lparr>h_neurons := (\<lambda>nr. (h_neurons sample_heap nr)\<lparr>n_activity := 1\<rparr>)\<rparr>"

text \<open>A reward-based algorithm with a trace on each connection of the small network, for a
  given \<^verbatim>\<open>enabled\<close> flag and lower weight bound.\<close>

definition sample_reward :: "bool \<Rightarrow> real \<Rightarrow> RewardBasedLearning" where
  "sample_reward enabled min_weight =
     \<lparr>rl_learning_rate = 0.01, rl_enabled = enabled, rl_trace_decay = 0.9,
      rl_max_weight = 2, rl_min_weight = min_weight,
      rl_traces = [''conn_0'' \<mapsto> 1, ''conn_1'' \<mapsto> 0.5]\<rparr>"

text \<open>A manager with both default algorithms registered, as \<^verbatim>\<open>create_learning_manager\<close> makes
  it, after \<^verbatim>\<open>set_active('hebbian')\<close>.\<close>

definition sample_manager :: LearningManager where
  "sample_manager =
     \<lparr>lm_algorithms =
        [(''hebbian'', Hebbian (default_hebbian\<lparr>hl_enabled := True\<rparr>)),
         (''reward'', RewardBased
            \<lparr>rl_learning_rate = 0.01, rl_enabled = False, rl_trace_decay = 0.9,
             rl_max_weight = 2, rl_min_weight = 0.1,
             rl_traces = [''conn_0'' \<mapsto> 0, ''conn_1'' \<mapsto> 0]\<rparr>)],
      lm_active_algorithm = Some ''hebbian''\<rparr>"

subsection \<open>Topology invariants\<close>

text \<open>The invariant of topology generation over a set \<open>N\<close> of neurons: the connections of the
  collection are allocated and distinct, the lists of the neurons of \<open>N\<close> hold connections of
  the collection only, and each connection of the collection joins two neurons of \<open>N\<close> and
  occurs once in the outgoing list of its source, once in the incoming list of its
  destination and in no other list of a neuron of \<open>N\<close>.\<close>

definition wired :: "ref set \<Rightarrow> Network \<Rightarrow> Heap \<Rightarrow> bool" where
  "wired N net h =
     ((\<forall>c\<in>set (connections net). c < h_next_conn h)
      \<and> distinct (connections net)
      \<and> (\<forall>n\<in>N. set (n_outgoing (h_neurons h n)) \<subseteq> set (connections net)
                \<and> set (n_incoming (h_neurons h n)) \<subseteq> set (connections net))
      \<and> (\<forall>c\<in>set (connections net).
            c_from_neuron (h_conns h c) \<in> N \<and> c_to_neuron (h_conns h c) \<in> N
          \<and> (\<forall>n\<in>N. count_list (n_outgoing (h_neurons h n)) c
                         = (if n = c_from_neuron (h_conns h c) then 1 else 0)
                     \<and> count_list (n_incoming (h_neurons h n)) c
                         = (if n = c_to_neuron (h_conns h c) then 1 else 0))))"

text \<open>The invariant on the state that the loops of \<^verbatim>\<open>_create_connections\<close> thread.\<close>

definition wired_state :: "ref set \<Rightarrow> build_state \<Rightarrow> bool" where
  "wired_state N = (\<lambda>(conn_id, net, h). wired N net h)"

text \<open>Neurons that are allocated and have no connection yet.\<close>

definition unwired :: "ref set \<Rightarrow> Heap \<Rightarrow> bool" where
  "unwired S h =
     (\<forall>n\<in>S. n < h_next_neuron h \<and> n_outgoing (h_neurons h n) = [] \<and> n_incoming (h_neurons h n) = [])"

text \<open>The neurons of the regions of a mapping.\<close>

definition region_neurons :: "(string, Region) dict \<Rightarrow> ref set" where
  "region_neurons rs = (\<Union>(rid, r)\<in>set rs. set (r_neurons r))"

text \<open>What claim C9 says of a constructed network: every connection of the collection occurs
  once in the collection, joins two neurons of the network, occurs once in the outgoing
  list of its source and in that of no other neuron, once in the incoming list of its
  destination and in that of no other neuron; and the lists of the neurons hold no
  connection that is not in the collection.\<close>

definition topology_ok :: "Network \<Rightarrow> Heap \<Rightarrow> bool" where
  "topology_ok net h =
     ((\<forall>c\<in>set (connections net).
          count_list (connections net) c = 1
        \<and> c_from_neuron (h_conns h c) \<in> set (all_neurons net)
        \<and> c_to_neuron (h_conns h c) \<in> set (all_neurons net)
        \<and> (\<forall>n\<in>set (all_neurons net).
              count_list (n_outgoing (h_neurons h n)) c
                = (if n = c_from_neuron (h_conns h c) then 1 else 0)
            \<and> count_list (n_incoming (h_neurons h n)) c
                = (if n = c_to_neuron (h_conns h c) then 1 else 0)))
      \<and> (\<forall>n\<in>set (all_neurons net).
            set (n_outgoing (h_neurons h n)) \<subseteq> set (connections net)
          \<and> set (n_incoming (h_neurons h n)) \<subseteq> set (connections net)))"

text \<open>A store with nothing allocated, whose generator always returns 0.\<close>

definition empty_heap :: Heap where
  "empty_heap =
     \<lparr>h_neurons = (\<lambda>_. sample_neuron), h_conns = (\<lambda>_. sample_connection),
      h_next_neuron = 0, h_next_conn = 0, h_random = (\<lambda>_. 0), h_random_pos = 0,
      h_history = []\<rparr>"

text \<open>A connection is in the collection of a state of the loops.\<close>

definition has_conn :: "ref \<Rightarrow> build_state \<Rightarrow> bool" where
  "has_conn c = (\<lambda>(conn_id, net, h). c \<in> set (connections net))"

section \<open>Verification\<close>

subsection \<open>Neuron.update keeps activity and refractory in range\<close>

text \<open>
  Claim C5. For every neuron with \<open>0 \<le> activity \<le> 1\<close> and \<open>refractory \<ge> 0\<close>, after
  \<^verbatim>\<open>Neuron.update\<close> with any decay rate, potential and threshold, whether the neuron fires
  or not, the state still has \<open>0 \<le> activity \<le> 1\<close> and \<open>refractory \<ge> 0\<close>.
\<close>

theorem Neuron_update_keeps_range:
  assumes "0 \<le> n_activity n" and "n_activity n \<le> 1" and "0 \<le> n_refractory n"
  shows "0 \<le> n_activity (snd (Neuron_update decay_rate n))
       \<and> n_activity (snd (Neuron_update decay_rate n)) \<le> 1
       \<and> 0 \<le> n_refractory (snd (Neuron_update decay_rate n))"
proof (cases "n_refractory n > 0")
  case True
  have "n_activity n * 0.8 \<le> 1" using assms by simp
  with True assms show ?thesis
    by (simp add: Neuron_update_def Neuron_fire_def Let_def split: prod.splits if_splits)
next
  case False
  with assms show ?thesis
    by (simp add: Neuron_update_def Neuron_fire_def Let_def split: prod.splits if_splits)
qed

theorem Neuron_update_keeps_range_witness:
  "0 \<le> n_activity (snd (Neuron_update 0.05 (sample_neuron\<lparr>n_potential := 1\<rparr>)))
   \<and> n_activity (snd (Neuron_update 0.05 (sample_neuron\<lparr>n_potential := 1\<rparr>))) \<le> 1
   \<and> 0 \<le> n_refractory (snd (Neuron_update 0.05 (sample_neuron\<lparr>n_potential := 1\<rparr>)))
   \<and> n_activity (snd (Neuron_update 0.05 (sample_neuron\<lparr>n_potential := 1\<rparr>))) = 1
   \<and> n_refractory (snd (Neuron_update 0.05 (sample_neuron\<lparr>n_potential := 1\<rparr>))) = 5"
proof -
  have "0 \<le> n_activity (sample_neuron\<lparr>n_potential := 1\<rparr>)"
    and "n_activity (sample_neuron\<lparr>n_potential := 1\<rparr>) \<le> 1"
    and "0 \<le> n_refractory (sample_neuron\<lparr>n_potential := 1\<rparr>)"
    by (simp_all add: sample_neuron_def)
  from Neuron_update_keeps_range [OF this, of "0.05"] show ?thesis
    by (simp add: sample_neuron_def Neuron_update_def Neuron_fire_def)
qed

subsection \<open>Travel time of a signal\<close>

lemma advance_signals_eq:
  "advance_signals step xs (arrived, remaining) =
     (arrived @ filter (\<lambda>s. progress s \<ge> 1) (map (\<lambda>s. s\<lparr>progress := progress s + step\<rparr>) xs),
      remaining @ filter (\<lambda>s. \<not> progress s \<ge> 1) (map (\<lambda>s. s\<lparr>progress := progress s + step\<rparr>) xs))"
  by (induction xs arbitrary: arrived remaining) (simp_all add: Let_def)

lemma Connection_update_signals_only:
  "fst (Connection_update m b c) = fst (advance_signals (b * m) (c_signals c) ([], []))"
  "c_signals (snd (Connection_update m b c)) = snd (advance_signals (b * m) (c_signals c) ([], []))"
  by (simp_all add: Connection_update_def split: prod.splits)

text \<open>Before the 50th update the added signal is the last one in flight, at progress
  \<open>0.02 * k\<close>, and the updates return what they would have returned without it.\<close>

lemma in_flight_before_50:
  "k < 50 \<Longrightarrow>
     (k > 0 \<longrightarrow> fst (Connection_ticks k (Connection_add_signal st c)) = fst (Connection_ticks k c)) \<and>
     c_signals (snd (Connection_ticks k (Connection_add_signal st c))) =
       c_signals (snd (Connection_ticks k c)) @ [\<lparr>progress = 0.02 * real k, strength = st\<rparr>]"
proof (induction k)
  case 0
  show ?case by (simp add: Connection_add_signal_def)
next
  case (Suc k)
  then have IH: "c_signals (snd (Connection_ticks k (Connection_add_signal st c))) =
       c_signals (snd (Connection_ticks k c)) @ [\<lparr>progress = 0.02 * real k, strength = st\<rparr>]"
    by simp
  have small: "\<not> 1 \<le> 0.02 * real k + 0.02" using Suc.prems by simp
  have eq: "0.02 * real k + 0.02 = 0.02 * real (Suc k)" by simp
  show ?case
    using small unfolding eq [symmetric]
    by (simp add: Connection_update_signals_only IH advance_signals_eq)
qed

text \<open>
  Claim C4. A signal added at progress 0 (\<^verbatim>\<open>add_signal\<close>) to a connection that is then
  updated every tick with \<^verbatim>\<open>base_speed = 0.02\<close> and \<^verbatim>\<open>speed_multiplier = 1.0\<close> stays in
  flight, as the last signal of the list at progress \<open>0.02 * k\<close>, after each of the first 49
  updates, none of which returns it; the 50th update, where its progress reaches 1,
  returns it as arrived (after whatever else arrives in that tick) and leaves it out of the
  signal list. The other signals of the connection behave as they would without it.
\<close>

theorem signal_arrives_at_tick_50:
  "(\<forall>k<50. fst (Connection_ticks k (Connection_add_signal st c)) = fst (Connection_ticks k c)
          \<and> c_signals (snd (Connection_ticks k (Connection_add_signal st c))) =
              c_signals (snd (Connection_ticks k c)) @ [\<lparr>progress = 0.02 * real k, strength = st\<rparr>])
   \<and> fst (Connection_ticks 50 (Connection_add_signal st c)) =
       fst (Connection_ticks 50 c) @ [\<lparr>progress = 1, strength = st\<rparr>]
   \<and> c_signals (snd (Connection_ticks 50 (Connection_add_signal st c))) =
       c_signals (snd (Connection_ticks 50 c))"
proof (intro conjI allI impI)
  fix k :: nat assume k: "k < 50"
  show "fst (Connection_ticks k (Connection_add_signal st c)) = fst (Connection_ticks k c)"
    using in_flight_before_50 [OF k, of st c] by (cases k) simp_all
  show "c_signals (snd (Connection_ticks k (Connection_add_signal st c))) =
              c_signals (snd (Connection_ticks k c)) @ [\<lparr>progress = 0.02 * real k, strength = st\<rparr>]"
    using in_flight_before_50 [OF k, of st c] by simp
next
  have n49: "c_signals (snd (Connection_ticks 49 (Connection_add_signal st c))) =
       c_signals (snd (Connection_ticks 49 c)) @ [\<lparr>progress = 0.02 * real 49, strength = st\<rparr>]"
    using in_flight_before_50 [of 49 st c] by simp
  have s50: "Connection_ticks 50 c' = Connection_update 1 0.02 (snd (Connection_ticks 49 c'))" for c'
    using Connection_ticks.simps(2) [of 49 c'] by simp
  show "fst (Connection_ticks 50 (Connection_add_signal st c)) =
       fst (Connection_ticks 50 c) @ [\<lparr>progress = 1, strength = st\<rparr>]"
    by (simp add: s50 Connection_update_signals_only n49 advance_signals_eq)
  show "c_signals (snd (Connection_ticks 50 (Connection_add_signal st c))) =
       c_signals (snd (Connection_ticks 50 c))"
    by (simp add: s50 Connection_update_signals_only n49 advance_signals_eq)
qed

theorem signal_arrives_at_tick_50_witness:
  "c_signals (snd (Connection_ticks 49 (Connection_add_signal 1 sample_connection))) =
      [\<lparr>progress = 0.98, strength = 1\<rparr>]
   \<and> fst (Connection_ticks 49 (Connection_add_signal 1 sample_connection)) = []
   \<and> fst (Connection_ticks 50 (Connection_add_signal 1 sample_connection)) =
      [\<lparr>progress = 1, strength = 1\<rparr>]
   \<and> c_signals (snd (Connection_ticks 50 (Connection_add_signal 1 sample_connection))) = []"
proof -
  have e49: "c_signals (snd (Connection_ticks 49 sample_connection)) = []"
    and f49: "fst (Connection_ticks 49 sample_connection) = []"
    and e50: "c_signals (snd (Connection_ticks 50 sample_connection)) = []"
    and f50: "fst (Connection_ticks 50 sample_connection) = []"
    by code_simp+
  have "(49::nat) < 50" by simp
  with signal_arrives_at_tick_50 [of 1 sample_connection] e49 f49 e50 f50
  show ?thesis by simp
qed

text \<open>The travel time does not depend on reading \<^verbatim>\<open>float\<close> as \<open>real\<close>: adding the double 0.02
  with binary64 rounding, the progress is below 1.0 after each of the first 49 updates
  (\<open>0.9800000000000005\<close> after the 49th) and \<open>1.0000000000000004\<close> after the 50th.\<close>

lemma binary64_arrival_at_50: "binary64_arrival 100 0 0 = Some 50"
  by code_simp

subsection \<open>Network.update does not write weights\<close>

lemma Connection_update_weight [simp]:
  "c_weight (snd (Connection_update m b c)) = c_weight c"
  by (simp add: Connection_update_def split: prod.splits)

lemma Connection_add_signal_weight [simp]:
  "c_weight (Connection_add_signal s c) = c_weight c"
  by (simp add: Connection_add_signal_def)

lemma deliver_conns [simp]: "h_conns (deliver cr sg h) = h_conns h"
  by (simp add: deliver_def record_event_def upd_neuron_def Let_def)

lemma fold_deliver_conns [simp]: "h_conns (fold (deliver cr) sgs h) = h_conns h"
  by (induction sgs arbitrary: h) simp_all

lemma update_connection_weight:
  "c_weight (h_conns (update_connection sm cr h) c) = c_weight (h_conns h c)"
  by (simp add: update_connection_def record_event_def Let_def split: prod.splits)
     (metis Connection_update_weight snd_conv)

lemma fold_update_connection_weight:
  "c_weight (h_conns (fold (update_connection sm) crs h) c) = c_weight (h_conns h c)"
  by (induction crs arbitrary: h) (simp_all add: update_connection_weight)

lemma Region_update_neuron_conns [simp]:
  "h_conns (snd (Region_update_neuron nr th)) = h_conns (snd th)"
  by (cases th) (simp add: Region_update_neuron_def record_event_def upd_neuron_def Let_def)

lemma fold_Region_update_neuron_conns [simp]:
  "h_conns (snd (fold Region_update_neuron nrs th)) = h_conns (snd th)"
  by (induction nrs arbitrary: th) simp_all

lemma Region_update_conns [simp]: "h_conns (snd (Region_update r h)) = h_conns h"
proof -
  have "h_conns (snd (fold Region_update_neuron (r_neurons r) (0, h))) = h_conns h"
    by simp
  then show ?thesis
    by (simp add: Region_update_def Let_def case_prod_unfold)
qed

lemma emit_signal_weight:
  "c_weight (h_conns (snd (emit_signal nr cr nh)) c) = c_weight (h_conns (snd nh) c)"
  by (cases nh) (simp add: emit_signal_def record_event_def upd_conn_def)

lemma fold_emit_signal_weight:
  "c_weight (h_conns (snd (fold (emit_signal nr) crs nh)) c) = c_weight (h_conns (snd nh) c)"
  by (induction crs arbitrary: nh) (simp_all add: emit_signal_weight)

lemma emit_neuron_weight:
  "c_weight (h_conns (snd (emit_neuron nr nh)) c) = c_weight (h_conns (snd nh) c)"
  by (cases nh) (simp add: emit_neuron_def fold_emit_signal_weight)

lemma fold_emit_neuron_weight:
  "c_weight (h_conns (snd (fold emit_neuron nrs nh)) c) = c_weight (h_conns (snd nh) c)"
  by (induction nrs arbitrary: nh) (simp_all add: emit_neuron_weight)

lemma update_regions_weight:
  "c_weight (h_conns (snd (snd (update_regions rs (net, h)))) c) = c_weight (h_conns h c)"
proof (induction rs arbitrary: net h)
  case Nil
  show ?case by simp
next
  case (Cons p rs)
  obtain rid r where p: "p = (rid, r)" by (cases p)
  obtain r' h1 where ru: "Region_update r h = (r', h1)" by (cases "Region_update r h")
  obtain net2 h2 where em: "fold emit_neuron (r_neurons r') (net, h1) = (net2, h2)"
    by (cases "fold emit_neuron (r_neurons r') (net, h1)")
  have "c_weight (h_conns h1 c) = c_weight (h_conns h c)"
    using Region_update_conns [of r h] ru by simp
  moreover have "c_weight (h_conns h2 c) = c_weight (h_conns h1 c)"
    using fold_emit_neuron_weight [of "r_neurons r'" "(net, h1)" c] em by simp
  ultimately show ?case
    using Cons.IH [of net2 h2] by (simp add: p ru em case_prod_unfold Let_def)
qed

text \<open>
  Claim C10. For every network, every store and every speed multiplier, \<^verbatim>\<open>Network.update\<close>
  leaves the weight of every connection as it was: the tick changes signals, activities and
  potentials only; weights are written by the learning subsystem alone.
\<close>

theorem Network_update_keeps_weights:
  "c_weight (h_conns (snd (Network_update speed_multiplier (net, h))) c) = c_weight (h_conns h c)"
proof -
  let ?h1 = "fold (update_connection speed_multiplier) (connections net) h"
  have "c_weight (h_conns (snd (snd (update_regions (regions net) (net, ?h1)))) c)
          = c_weight (h_conns ?h1 c)"
    by (rule update_regions_weight)
  then show ?thesis
    by (simp add: Network_update_def Let_def fold_update_connection_weight case_prod_unfold)
qed


subsection \<open>The order of the steps of Network.update\<close>























lemma emit_signal_neurons [simp]: "h_neurons (snd (emit_signal nr cr nh)) = h_neurons (snd nh)"
  by (cases nh) (simp add: emit_signal_def record_event_def upd_conn_def)

lemma fold_emit_signal_neurons [simp]:
  "h_neurons (snd (fold (emit_signal nr) crs nh)) = h_neurons (snd nh)"
  by (induction crs arbitrary: nh) simp_all

lemma emit_neuron_neurons [simp]: "h_neurons (snd (emit_neuron nr nh)) = h_neurons (snd nh)"
  by (cases nh) (simp add: emit_neuron_def)



























subsection \<open>CentralHub.aggregate\<close>

lemma distribute_ok:
  assumes "0 < output_size" and "length state = nat output_size"
  shows "\<exists>state'. distribute output_size items state = Inr state'
           \<and> length state' = length state
           \<and> ((\<forall>(i, a)\<in>set items. 0 \<le> a) \<and> (\<forall>v\<in>set state. 0 \<le> v) \<longrightarrow> (\<forall>v\<in>set state'. 0 \<le> v))
           \<and> ((\<forall>(i, a)\<in>set items. a = 0) \<longrightarrow> state' = state)"
  using assms(2)
proof (induction items arbitrary: state)
  case Nil
  show ?case by simp
next
  case (Cons p items)
  obtain i a where p: "p = (i, a)" by (cases p)
  let ?k = "int i mod output_size"
  have k: "0 \<le> ?k" "?k < output_size" using assms(1) by simp_all
  have idx: "list_index state ?k = Inr (nat ?k)"
    using k Cons.prems by (simp add: list_index_def Let_def)
  have lt: "nat ?k < length state" using k Cons.prems by simp
  let ?s1 = "state[nat ?k := state ! nat ?k + a]"
  have len1: "length ?s1 = nat output_size" using Cons.prems by simp
  from Cons.IH [OF len1] obtain state' where
    IH: "distribute output_size items ?s1 = Inr state'" "length state' = length ?s1"
      "(\<forall>(i, a)\<in>set items. 0 \<le> a) \<and> (\<forall>v\<in>set ?s1. 0 \<le> v) \<longrightarrow> (\<forall>v\<in>set state'. 0 \<le> v)"
      "(\<forall>(i, a)\<in>set items. a = 0) \<longrightarrow> state' = ?s1"
    by blast
  have step: "distribute output_size (p # items) state = distribute output_size items ?s1"
    using assms(1) idx by (simp add: p py_mod_def)
  have nonneg: "(\<forall>v\<in>set ?s1. 0 \<le> v)" if "0 \<le> a" "\<forall>v\<in>set state. 0 \<le> v"
  proof
    fix v assume "v \<in> set ?s1"
    then have "v = state ! nat ?k + a \<or> v \<in> set state"
      using set_update_subset_insert [of state "nat ?k" "state ! nat ?k + a"] by auto
    moreover have "0 \<le> state ! nat ?k" using that(2) lt by simp
    ultimately show "0 \<le> v" using that by auto
  qed
  have zero: "?s1 = state" if "a = 0" using that by simp
  have c1: "length state' = length state" using IH(2) by simp
  have c2: "(\<forall>(i, a)\<in>set (p # items). 0 \<le> a) \<and> (\<forall>v\<in>set state. 0 \<le> v)
              \<longrightarrow> (\<forall>v\<in>set state'. 0 \<le> v)"
  proof (intro impI, elim conjE)
    assume items: "\<forall>(i, a)\<in>set (p # items). 0 \<le> a" and s0: "\<forall>v\<in>set state. 0 \<le> v"
    from items have "0 \<le> a" and rest: "\<forall>(i, a)\<in>set items. 0 \<le> a" by (simp_all add: p)
    from nonneg [OF \<open>0 \<le> a\<close> s0] rest IH(3) show "\<forall>v\<in>set state'. 0 \<le> v" by blast
  qed
  have c3: "(\<forall>(i, a)\<in>set (p # items). a = 0) \<longrightarrow> state' = state"
  proof
    assume items: "\<forall>(i, a)\<in>set (p # items). a = 0"
    then have "a = 0" and rest: "\<forall>(i, a)\<in>set items. a = 0" by (simp_all add: p)
    with IH(4) zero show "state' = state" by simp
  qed
  from IH(1) c1 c2 c3 show ?case
    unfolding step by blast
qed

lemma py_max_Max: "xs \<noteq> [] \<Longrightarrow> py_max xs = Max (set xs)"
proof (cases xs)
  case Nil
  then show "xs \<noteq> [] \<Longrightarrow> py_max xs = Max (set xs)" by simp
next
  case (Cons x ys)
  show "py_max xs = Max (set xs)"
    unfolding Cons using Max.set_eq_fold [of x ys] by simp
qed

lemma py_max_ge: "v \<in> set xs \<Longrightarrow> v \<le> py_max xs"
proof -
  assume v: "v \<in> set xs"
  then have "xs \<noteq> []" by auto
  then have "py_max xs = Max (set xs)" by (rule py_max_Max)
  with v show "v \<le> py_max xs" by simp
qed

lemma py_max_in: "xs \<noteq> [] \<Longrightarrow> py_max xs \<in> set xs"
proof -
  assume ne: "xs \<noteq> []"
  then have "Max (set xs) \<in> set xs" by (intro Max_in) simp_all
  with py_max_Max [OF ne] show "py_max xs \<in> set xs" by simp
qed

text \<open>
  Claim C3, amended. For a hub whose \<^verbatim>\<open>output_size\<close> is at least 1, for every region
  mapping in which each \<^verbatim>\<open>total_activity\<close> is at least 0 and each modulation weight lies in
  \<open>[0.1, 2.0]\<close>, \<^verbatim>\<open>CentralHub.aggregate\<close> returns (and stores) a vector of length
  \<^verbatim>\<open>output_size\<close> whose entries all lie in \<open>[0, 1]\<close>; when every \<^verbatim>\<open>total_activity\<close> is 0 it
  is the all-zero vector.
\<close>

theorem aggregate_in_unit_interval:
  assumes size: "0 < hub_output_size hub'"
    and act: "\<forall>(rid, r)\<in>set regions'. 0 \<le> r_total_activity r"
    and mw: "\<forall>(rid, w)\<in>set (hub_modulation_weights hub'). 0.1 \<le> w \<and> w \<le> 2"
  shows "\<exists>state. CentralHub_aggregate regions' hub' = Inr (state, hub'\<lparr>hub_state := state\<rparr>)
           \<and> length state = nat (hub_output_size hub')
           \<and> (\<forall>v\<in>set state. 0 \<le> v \<and> v \<le> 1)
           \<and> ((\<forall>(rid, r)\<in>set regions'. r_total_activity r = 0)
                \<longrightarrow> state = replicate (nat (hub_output_size hub')) 0)"
proof -
  let ?n = "nat (hub_output_size hub')"
  let ?acts = "map (\<lambda>(region_id, region).
                   r_total_activity region * dict_get (hub_modulation_weights hub') region_id 1) regions'"
  have w_nonneg: "0 \<le> dict_get (hub_modulation_weights hub') rid 1" for rid
  proof (cases "map_of (hub_modulation_weights hub') rid")
    case None
    then show ?thesis by (simp add: dict_get_def)
  next
    case (Some w)
    then have "(rid, w) \<in> set (hub_modulation_weights hub')" by (rule map_of_SomeD)
    with mw have "0.1 \<le> w" by auto
    with Some show ?thesis by (simp add: dict_get_def)
  qed
  have acts_nonneg: "\<forall>(i, a)\<in>set (enumerate 0 ?acts). 0 \<le> a"
  proof (clarify)
    fix i a assume "(i, a) \<in> set (enumerate 0 ?acts)"
    then have "a \<in> set ?acts" by (auto simp: in_set_enumerate_eq)
    then obtain rid r where "(rid, r) \<in> set regions'"
        "a = r_total_activity r * dict_get (hub_modulation_weights hub') rid 1" by auto
    with act w_nonneg [of rid] show "0 \<le> a" by auto
  qed
  have acts_zero: "\<forall>(i, a)\<in>set (enumerate 0 ?acts). a = 0"
    if "\<forall>(rid, r)\<in>set regions'. r_total_activity r = 0"
  proof (clarify)
    fix i a assume "(i, a) \<in> set (enumerate 0 ?acts)"
    then have "a \<in> set ?acts" by (auto simp: in_set_enumerate_eq)
    then obtain rid r where "(rid, r) \<in> set regions'"
        "a = r_total_activity r * dict_get (hub_modulation_weights hub') rid 1" by auto
    with that show "a = 0" by auto
  qed
  from distribute_ok [OF size, of "replicate ?n 0" "enumerate 0 ?acts"]
  obtain st where st: "distribute (hub_output_size hub') (enumerate 0 ?acts) (replicate ?n 0) = Inr st"
      "length st = ?n"
      "(\<forall>(i, a)\<in>set (enumerate 0 ?acts). 0 \<le> a) \<longrightarrow> (\<forall>v\<in>set st. 0 \<le> v)"
      "(\<forall>(i, a)\<in>set (enumerate 0 ?acts). a = 0) \<longrightarrow> st = replicate ?n 0"
    by auto
  have st_nonneg: "\<forall>v\<in>set st. 0 \<le> v" using st(3) acts_nonneg by blast
  have ne: "st \<noteq> []" using st(2) size by auto
  let ?m = "py_max st"
  let ?st' = "if ?m > 0 then map (\<lambda>v. min 1 (v / max ?m 1)) st else st"
  have res: "CentralHub_aggregate regions' hub' = Inr (?st', hub'\<lparr>hub_state := ?st'\<rparr>)"
    using st(1) ne by (simp add: CentralHub_aggregate_def Let_def)
  have len: "length ?st' = ?n" using st(2) by simp
  have range: "\<forall>v\<in>set ?st'. 0 \<le> v \<and> v \<le> 1"
  proof (cases "?m > 0")
    case True
    have "0 \<le> min 1 (v / max ?m 1) \<and> min 1 (v / max ?m 1) \<le> 1" if "v \<in> set st" for v
      using st_nonneg that by simp
    with True show ?thesis by auto
  next
    case False
    have "0 \<le> v \<and> v \<le> 1" if "v \<in> set st" for v
      using st_nonneg that py_max_ge [OF that] False by auto
    with False show ?thesis by auto
  qed
  have zero: "?st' = replicate ?n 0" if z: "\<forall>(rid, r)\<in>set regions'. r_total_activity r = 0"
  proof -
    have eq: "st = replicate ?n 0" using st(4) acts_zero [OF z] by blast
    have "v \<le> 0" if "v \<in> set st" for v using that eq by auto
    from this [OF py_max_in [OF ne]] have "?m \<le> 0" .
    with eq show ?thesis by simp
  qed
  from res len range zero show ?thesis by blast
qed

text \<open>
  As the claim states it, for every hub: with \<^verbatim>\<open>output_size = 0\<close> and one region of
  activity 0 and weight 1, \<^verbatim>\<open>i % self.output_size\<close> raises and no vector is returned.
\<close>

theorem aggregate_raises_counterexample:
  "r_total_activity sample_region = 0
   \<and> hub_modulation_weights (sample_hub 0) = [(''frontal'', 1)]
   \<and> CentralHub_init (0.45, 0.45) 0.08 20 0 = Inr ((sample_hub 0)\<lparr>hub_modulation_weights := []\<rparr>)
   \<and> CentralHub_aggregate [(''frontal'', sample_region)] (sample_hub 0) = Inl ZeroDivisionError
   \<and> CentralHub_aggregate [(''frontal'', sample_region)]
         ((sample_hub 0)\<lparr>hub_modulation_weights := []\<rparr>) = Inl ZeroDivisionError"
  by (simp add: CentralHub_aggregate_def CentralHub_init_def sample_hub_def sample_region_def
        dict_get_def enumerate_eq_zip py_mod_def)

text \<open>A negative \<^verbatim>\<open>output_size\<close>, which no constructor rejects, gives an empty state and an
  index error.\<close>

lemma aggregate_negative_size:
  "CentralHub_aggregate [(''frontal'', sample_region)] (sample_hub (- 1)) = Inl IndexError"
  by (simp add: CentralHub_aggregate_def sample_hub_def sample_region_def dict_get_def
        enumerate_eq_zip py_mod_def list_index_def)

theorem aggregate_in_unit_interval_witness:
  "CentralHub_aggregate [(''frontal'', sample_region\<lparr>r_total_activity := 0.5\<rparr>),
                         (''motor'', sample_region\<lparr>r_total_activity := 1\<rparr>)] (sample_hub 1)
     = Inr ([1], sample_hub 1\<lparr>hub_state := [1]\<rparr>)
   \<and> CentralHub_aggregate [(''frontal'', sample_region)] (sample_hub 4)
     = Inr ([0, 0, 0, 0], sample_hub 4\<lparr>hub_state := [0, 0, 0, 0]\<rparr>)"
proof -
  let ?rs = "[(''frontal'', sample_region\<lparr>r_total_activity := 0.5\<rparr>),
              (''motor'', sample_region\<lparr>r_total_activity := 1\<rparr>)]"
  have 1: "0 < hub_output_size (sample_hub 1)" "0 < hub_output_size (sample_hub 4)"
    by (simp_all add: sample_hub_def)
  have 2: "\<forall>(rid, r)\<in>set ?rs. 0 \<le> r_total_activity r"
    "\<forall>(rid, r)\<in>set [(''frontal'', sample_region)]. 0 \<le> r_total_activity r"
    by (simp_all add: sample_region_def)
  have 3: "\<forall>(rid, w)\<in>set (hub_modulation_weights (sample_hub k)). 0.1 \<le> w \<and> w \<le> 2" for k
    by (simp add: sample_hub_def)
  have z: "\<forall>(rid, r)\<in>set [(''frontal'', sample_region)]. r_total_activity r = 0"
    by (simp add: sample_region_def)
  from aggregate_in_unit_interval [OF 1(2) 2(2) 3] z
  have "CentralHub_aggregate [(''frontal'', sample_region)] (sample_hub 4)
     = Inr (replicate (nat (hub_output_size (sample_hub 4))) 0,
            sample_hub 4\<lparr>hub_state := replicate (nat (hub_output_size (sample_hub 4))) 0\<rparr>)"
    by auto
  moreover have "replicate (nat (hub_output_size (sample_hub 4))) 0 = [0, 0, 0, 0::real]"
    by (simp add: sample_hub_def numeral_eq_Suc)
  moreover have "CentralHub_aggregate ?rs (sample_hub 1) = Inr ([1], sample_hub 1\<lparr>hub_state := [1]\<rparr>)"
    by (simp add: CentralHub_aggregate_def sample_hub_def sample_region_def dict_get_def
        enumerate_eq_zip py_mod_def list_index_def Let_def)
  ultimately show ?thesis by simp
qed

subsection \<open>HebbianLearning.update\<close>

lemma default_hebbian_init: "HebbianLearning_init 0.01 0.001 2 0.1 = Inr default_hebbian"
  by (simp add: HebbianLearning_init_def default_hebbian_def)

lemma hebbian_step_frame:
  "h_neurons (hebbian_step alg cr h) = h_neurons h"
  "c_from_neuron (h_conns (hebbian_step alg cr h) c) = c_from_neuron (h_conns h c)"
  "c_to_neuron (h_conns (hebbian_step alg cr h) c) = c_to_neuron (h_conns h c)"
  "c \<noteq> cr \<Longrightarrow> h_conns (hebbian_step alg cr h) c = h_conns h c"
  by (simp_all add: hebbian_step_def upd_conn_def Let_def)

lemma hebbian_step_both_active: "both_active (hebbian_step alg cr h) c = both_active h c"
  by (simp add: both_active_def hebbian_step_frame)

lemma hebbian_step_weight:
  assumes "both_active h cr"
  shows "c_weight (h_conns (hebbian_step (default_hebbian\<lparr>hl_enabled := True\<rparr>) cr h) cr) =
           max 0.1 (min 2 (c_weight (h_conns h cr) + (0.01 - 0.001 * (c_weight (h_conns h cr) - 1))))"
  using assms
  by (simp add: hebbian_step_def upd_conn_def Let_def default_hebbian_def both_active_def)

lemma hebbian_rule:
  fixes w :: real
  defines "w' \<equiv> max 0.1 (min 2 (w + (0.01 - 0.001 * (w - 1))))"
  shows "w' \<le> 2" and "w \<le> 2 \<Longrightarrow> w \<le> w'" and "0.1 \<le> w \<Longrightarrow> w < 2 \<Longrightarrow> w < w'"
proof -
  have e: "w + (0.01 - 0.001 * (w - 1)) = 0.999 * w + 0.011" by (simp add: field_simps)
  show "w' \<le> 2" unfolding w'_def by simp
  show "w \<le> w'" if "w \<le> 2"
  proof -
    have "w \<le> 0.999 * w + 0.011" using that by simp
    with that show ?thesis unfolding w'_def e by simp
  qed
  show "w < w'" if "0.1 \<le> w" "w < 2"
  proof -
    have "w < 0.999 * w + 0.011" using that by simp
    with that show ?thesis unfolding w'_def e by simp
  qed
qed

lemma fold_hebbian_step:
  assumes "\<forall>c\<in>set crs. both_active h c"
  defines "h' \<equiv> fold (hebbian_step (default_hebbian\<lparr>hl_enabled := True\<rparr>)) crs h"
  shows "(\<forall>c. c_weight (h_conns h c) \<le> 2 \<longrightarrow>
              c_weight (h_conns h c) \<le> c_weight (h_conns h' c) \<and> c_weight (h_conns h' c) \<le> 2)
       \<and> (\<forall>c\<in>set crs. c_weight (h_conns h' c) \<le> 2)
       \<and> (\<forall>c\<in>set crs. 0.1 \<le> c_weight (h_conns h c) \<and> c_weight (h_conns h c) < 2 \<longrightarrow>
              c_weight (h_conns h c) < c_weight (h_conns h' c))"
  using assms(1) unfolding h'_def
proof (induction crs arbitrary: h)
  case Nil
  show ?case by simp
next
  case (Cons cr crs)
  let ?alg = "default_hebbian\<lparr>hl_enabled := True\<rparr>"
  let ?h1 = "hebbian_step ?alg cr h"
  let ?h' = "fold (hebbian_step ?alg) crs ?h1"
  let ?w = "\<lambda>c. c_weight (h_conns h c)"
  let ?w1 = "\<lambda>c. c_weight (h_conns ?h1 c)"
  let ?w' = "\<lambda>c. c_weight (h_conns ?h' c)"
  have act: "both_active h cr" using Cons.prems by simp
  have "\<forall>c\<in>set crs. both_active ?h1 c"
    using Cons.prems by (simp add: hebbian_step_both_active)
  from Cons.IH [OF this]
  have IH1: "\<And>c. ?w1 c \<le> 2 \<Longrightarrow> ?w1 c \<le> ?w' c \<and> ?w' c \<le> 2"
    and IH2: "\<And>c. c \<in> set crs \<Longrightarrow> ?w' c \<le> 2"
    and IH3: "\<And>c. c \<in> set crs \<Longrightarrow> 0.1 \<le> ?w1 c \<Longrightarrow> ?w1 c < 2 \<Longrightarrow> ?w1 c < ?w' c"
    by blast+
  have w1_cr: "?w1 cr = max 0.1 (min 2 (?w cr + (0.01 - 0.001 * (?w cr - 1))))"
    by (rule hebbian_step_weight [OF act])
  have w1_other: "?w1 c = ?w c" if "c \<noteq> cr" for c
    using that by (simp add: hebbian_step_frame)
  have s1: "?w1 cr \<le> 2" unfolding w1_cr by (rule hebbian_rule)
  have s2: "?w cr \<le> ?w1 cr" if "?w cr \<le> 2" unfolding w1_cr using that by (rule hebbian_rule)
  have s3: "?w cr < ?w1 cr" if "0.1 \<le> ?w cr" "?w cr < 2" unfolding w1_cr using that by (rule hebbian_rule)
  have P1: "?w c \<le> ?w' c \<and> ?w' c \<le> 2" if le: "?w c \<le> 2" for c
  proof (cases "c = cr")
    case True
    with IH1 [of cr] s1 s2 le show ?thesis by auto
  next
    case False
    with IH1 [of c] w1_other [of c] le show ?thesis by simp
  qed
  have P2: "?w' c \<le> 2" if "c \<in> set (cr # crs)" for c
  proof (cases "c = cr")
    case True
    with IH1 [of cr] s1 show ?thesis by simp
  next
    case False
    with that IH2 [of c] show ?thesis by simp
  qed
  have P3: "?w c < ?w' c" if "c \<in> set (cr # crs)" "0.1 \<le> ?w c" "?w c < 2" for c
  proof (cases "c = cr")
    case True
    with IH1 [of cr] s1 s3 that show ?thesis by auto
  next
    case False
    with that IH3 [of c] w1_other [of c] show ?thesis by simp
  qed
  have fold_eq: "fold (hebbian_step ?alg) (cr # crs) h = ?h'" by simp
  from P1 P2 P3 show ?case unfolding fold_eq by blast
qed

text \<open>
  Claim C6. \<^verbatim>\<open>HebbianLearning.update\<close> of a disabled algorithm leaves the store, and so every
  connection weight, unchanged. Enabled, with the default parameters (learning rate 0.01,
  decay rate 0.001, bounds 0.1 and 2.0) and activity 1 at both ends of every connection of the
  network, one call leaves no weight of the collection above 2.0 and strictly increases
  every weight that starts in \<open>[0.1, 2.0)\<close>.
\<close>

theorem hebbian_update_weights:
  "(\<not> hl_enabled alg \<longrightarrow> HebbianLearning_update alg (net, h) = h)
   \<and> ((\<forall>c\<in>set (connections net). both_active h c) \<longrightarrow>
        (\<forall>c\<in>set (connections net).
           c_weight (h_conns (HebbianLearning_update (default_hebbian\<lparr>hl_enabled := True\<rparr>) (net, h)) c) \<le> 2
           \<and> (0.1 \<le> c_weight (h_conns h c) \<and> c_weight (h_conns h c) < 2 \<longrightarrow>
                c_weight (h_conns h c)
                  < c_weight (h_conns (HebbianLearning_update (default_hebbian\<lparr>hl_enabled := True\<rparr>) (net, h)) c))))"
proof (intro conjI impI)
  assume "\<not> hl_enabled alg"
  then show "HebbianLearning_update alg (net, h) = h"
    by (simp add: HebbianLearning_update_def)
next
  assume act: "\<forall>c\<in>set (connections net). both_active h c"
  have upd: "HebbianLearning_update (default_hebbian\<lparr>hl_enabled := True\<rparr>) (net, h) =
      fold (hebbian_step (default_hebbian\<lparr>hl_enabled := True\<rparr>)) (connections net) h"
    by (simp add: HebbianLearning_update_def)
  from fold_hebbian_step [OF act] show "\<forall>c\<in>set (connections net).
           c_weight (h_conns (HebbianLearning_update (default_hebbian\<lparr>hl_enabled := True\<rparr>) (net, h)) c) \<le> 2
           \<and> (0.1 \<le> c_weight (h_conns h c) \<and> c_weight (h_conns h c) < 2 \<longrightarrow>
                c_weight (h_conns h c)
                  < c_weight (h_conns (HebbianLearning_update (default_hebbian\<lparr>hl_enabled := True\<rparr>) (net, h)) c))"
    unfolding upd by blast
qed

theorem hebbian_update_weights_witness:
  "HebbianLearning_update default_hebbian (sample_network, active_heap) = active_heap
   \<and> c_weight (h_conns active_heap 0) = 1
   \<and> c_weight (h_conns (HebbianLearning_update (default_hebbian\<lparr>hl_enabled := True\<rparr>)
        (sample_network, active_heap)) 0) = 1.01
   \<and> c_weight (h_conns active_heap 0)
        < c_weight (h_conns (HebbianLearning_update (default_hebbian\<lparr>hl_enabled := True\<rparr>)
            (sample_network, active_heap)) 0)
   \<and> c_weight (h_conns (HebbianLearning_update (default_hebbian\<lparr>hl_enabled := True\<rparr>)
        (sample_network, active_heap)) 0) \<le> 2"
proof -
  have dis: "\<not> hl_enabled default_hebbian" by (simp add: default_hebbian_def)
  have act: "\<forall>c\<in>set (connections sample_network). both_active active_heap c"
    by (simp add: sample_network_def both_active_def active_heap_def)
  have mem: "0 \<in> set (connections sample_network)" by (simp add: sample_network_def)
  have w0: "c_weight (h_conns active_heap 0) = 1"
    by (simp add: active_heap_def sample_heap_def sample_connection_def)
  have w1: "c_weight (h_conns (HebbianLearning_update (default_hebbian\<lparr>hl_enabled := True\<rparr>)
        (sample_network, active_heap)) 0) = 1.01"
    by (simp add: HebbianLearning_update_def default_hebbian_def sample_network_def
          hebbian_step_def upd_conn_def Let_def active_heap_def sample_heap_def
          sample_connection_def sample_neuron_def)
  from hebbian_update_weights [of default_hebbian sample_network active_heap] dis act mem w0 w1
  show ?thesis by auto
qed

subsection \<open>RewardBasedLearning.apply_reward with reward 0\<close>

lemma reward_step_zero:
  assumes "rl_min_weight alg \<le> c_weight (h_conns h cr)"
    and "c_weight (h_conns h cr) \<le> rl_max_weight alg"
  shows "reward_step alg 0 cr h = h"
  using assms by (simp add: reward_step_def upd_conn_def Let_def)

lemma fold_reward_step_zero:
  assumes "\<forall>c\<in>set crs. rl_min_weight alg \<le> c_weight (h_conns h c)
                         \<and> c_weight (h_conns h c) \<le> rl_max_weight alg"
  shows "fold (reward_step alg 0) crs h = h"
  using assms by (induction crs) (simp_all add: reward_step_zero)

text \<open>
  Claim C7, amended. \<^verbatim>\<open>RewardBasedLearning.apply_reward(0)\<close> on an enabled algorithm, when
  every connection weight of the network lies within \<open>[min_weight, max_weight]\<close> and the
  learning rate, the traces and their products are finite (as all numbers of the model are),
  leaves the store (so every weight) unchanged and multiplies every eligibility trace by
  0.5. On a disabled algorithm it returns at once: neither a weight nor a trace changes.
\<close>

theorem apply_reward_zero:
  "(rl_enabled alg
      \<and> (\<forall>c\<in>set (connections net). rl_min_weight alg \<le> c_weight (h_conns h c)
                                     \<and> c_weight (h_conns h c) \<le> rl_max_weight alg)
     \<longrightarrow> snd (RewardBasedLearning_apply_reward 0 alg (net, h)) = h
         \<and> (\<forall>conn_id. rl_traces (fst (RewardBasedLearning_apply_reward 0 alg (net, h))) conn_id
                        = map_option (\<lambda>t. t * 0.5) (rl_traces alg conn_id)))
   \<and> (\<not> rl_enabled alg \<longrightarrow> RewardBasedLearning_apply_reward 0 alg (net, h) = (alg, h))"
  by (simp add: RewardBasedLearning_apply_reward_def fold_reward_step_zero)

theorem apply_reward_zero_witness:
  "snd (RewardBasedLearning_apply_reward 0 (sample_reward True 0.1) (sample_network, sample_heap))
     = sample_heap
   \<and> c_weight (h_conns (snd (RewardBasedLearning_apply_reward 0 (sample_reward True 0.1)
        (sample_network, sample_heap))) 0) = 1
   \<and> rl_traces (sample_reward True 0.1) ''conn_0'' = Some 1
   \<and> rl_traces (fst (RewardBasedLearning_apply_reward 0 (sample_reward True 0.1)
        (sample_network, sample_heap))) ''conn_0'' = Some 0.5
   \<and> RewardBasedLearning_apply_reward 0 (sample_reward False 0.1) (sample_network, sample_heap)
     = (sample_reward False 0.1, sample_heap)"
proof -
  have en: "rl_enabled (sample_reward True 0.1)" "\<not> rl_enabled (sample_reward False 0.1)"
    by (simp_all add: sample_reward_def)
  have bounds: "\<forall>c\<in>set (connections sample_network).
      rl_min_weight (sample_reward True 0.1) \<le> c_weight (h_conns sample_heap c)
      \<and> c_weight (h_conns sample_heap c) \<le> rl_max_weight (sample_reward True 0.1)"
    by (simp add: sample_network_def sample_heap_def sample_connection_def sample_reward_def)
  have w: "c_weight (h_conns sample_heap 0) = 1"
    by (simp add: sample_heap_def sample_connection_def)
  have t: "rl_traces (sample_reward True 0.1) ''conn_0'' = Some 1"
    by (simp add: sample_reward_def)
  from apply_reward_zero [of "sample_reward True 0.1" sample_network sample_heap] en(1) bounds
  have 1: "snd (RewardBasedLearning_apply_reward 0 (sample_reward True 0.1) (sample_network, sample_heap))
     = sample_heap"
    and 2: "rl_traces (fst (RewardBasedLearning_apply_reward 0 (sample_reward True 0.1)
        (sample_network, sample_heap))) ''conn_0''
       = map_option (\<lambda>t. t * 0.5) (rl_traces (sample_reward True 0.1) ''conn_0'')"
    by blast+
  from apply_reward_zero [of "sample_reward False 0.1" sample_network sample_heap] en(2)
  have 3: "RewardBasedLearning_apply_reward 0 (sample_reward False 0.1) (sample_network, sample_heap)
     = (sample_reward False 0.1, sample_heap)"
    by blast
  from 1 2 3 w t show ?thesis by simp
qed

text \<open>
  As the claim states it, for every algorithm: a disabled algorithm keeps its traces (1 stays
  1), and an enabled one whose lower bound 1.5 lies above the weight 1 of connection 0 moves
  that weight to the bound although the reward is 0.
\<close>

theorem apply_reward_zero_counterexample:
  "rl_traces (sample_reward False 0.1) ''conn_0'' = Some 1
   \<and> rl_traces (fst (RewardBasedLearning_apply_reward 0 (sample_reward False 0.1)
        (sample_network, sample_heap))) ''conn_0'' = Some 1
   \<and> c_weight (h_conns sample_heap 0) = 1
   \<and> c_weight (h_conns (snd (RewardBasedLearning_apply_reward 0 (sample_reward True 1.5)
        (sample_network, sample_heap))) 0) = 1.5"
  by (simp add: RewardBasedLearning_apply_reward_def sample_reward_def sample_network_def
        sample_heap_def sample_connection_def reward_step_def upd_conn_def traces_get_def Let_def)

subsection \<open>Operations addressed at an unknown id\<close>

text \<open>
  Claim C8, amended. \<^verbatim>\<open>Network.stimulate_region\<close> with a region id that is not in the region
  mapping, and \<^verbatim>\<open>LearningManager.set_active\<close> with a name that is not in the registry, leave
  the network, the store and the manager unchanged and return \<^verbatim>\<open>None\<close> without raising. The
  return value is the one of a successful call: nothing indicates the failure.
\<close>

theorem unknown_id_is_silent_noop:
  "(map_of (regions net) region_id = None
      \<longrightarrow> Network_stimulate_region region_id strength' (net, h) = ((), net, h))
   \<and> (map_of (lm_algorithms m) name = None
      \<longrightarrow> LearningManager_set_active name m = ((), m))"
  by (simp add: Network_stimulate_region_def LearningManager_set_active_def)

theorem unknown_id_is_silent_noop_witness:
  "map_of (regions sample_network) ''amygdala'' = None
   \<and> Network_stimulate_region ''amygdala'' 1 (sample_network, sample_heap)
       = ((), sample_network, sample_heap)
   \<and> map_of (lm_algorithms sample_manager) ''predictive'' = None
   \<and> LearningManager_set_active ''predictive'' sample_manager = ((), sample_manager)"
proof -
  have 1: "map_of (regions sample_network) ''amygdala'' = None"
    by (simp add: sample_network_def)
  have 2: "map_of (lm_algorithms sample_manager) ''predictive'' = None"
    by (simp add: sample_manager_def)
  from unknown_id_is_silent_noop [of sample_network "''amygdala''" 1 sample_heap
      sample_manager "''predictive''"] 1 2
  show ?thesis by simp
qed

text \<open>
  As the claim states it, the failure is reported. But the call with the unknown name
  \<^verbatim>\<open>'predictive'\<close> has the very outcome, return value and state, of the successful call with
  the registered name \<^verbatim>\<open>'hebbian'\<close> (already active); and \<^verbatim>\<open>stimulate_region\<close> returns the
  same value for the unknown id \<^verbatim>\<open>'amygdala'\<close> as for the known id \<^verbatim>\<open>'frontal'\<close>, which it
  stimulates.
\<close>

theorem unknown_id_counterexample:
  "map_of (lm_algorithms sample_manager) ''predictive'' = None
   \<and> map_of (lm_algorithms sample_manager) ''hebbian'' \<noteq> None
   \<and> LearningManager_set_active ''predictive'' sample_manager
       = LearningManager_set_active ''hebbian'' sample_manager
   \<and> map_of (regions sample_network) ''amygdala'' = None
   \<and> map_of (regions sample_network) ''frontal'' \<noteq> None
   \<and> fst (Network_stimulate_region ''amygdala'' 1 (sample_network, sample_heap))
       = fst (Network_stimulate_region ''frontal'' 1 (sample_network, sample_heap))
   \<and> n_potential (h_neurons (snd (snd (Network_stimulate_region ''frontal'' 1
        (sample_network, sample_heap)))) 0) = 1"
proof -
  have "LearningManager_set_active ''predictive'' sample_manager
       = LearningManager_set_active ''hebbian'' sample_manager"
    by (simp add: LearningManager_set_active_def sample_manager_def active_in_registry_def
          default_hebbian_def)
  moreover have "n_potential (h_neurons (snd (snd (Network_stimulate_region ''frontal'' 1
        (sample_network, sample_heap)))) 0) = 1"
    by (simp add: Network_stimulate_region_def sample_network_def sample_heap_def
          Region_stimulate_def random_shuffle_def randbelow_def random_random_def
          slice_to_def upd_neuron_def Neuron_stimulate_def sample_neuron_def Let_def
          numeral_2_eq_2)
  ultimately show ?thesis
    by (simp add: sample_manager_def sample_network_def)
qed

subsection \<open>Topology generation: the connection loops keep the invariant\<close>

lemma add_connection_effect:
  assumes "add_connection n1 n2 (conn_id, net, h) = (conn_id', net', h')"
  shows "connections net' = connections net @ [h_next_conn h]"
    and "h_next_conn h' = Suc (h_next_conn h)"
    and "c_from_neuron (h_conns h' (h_next_conn h)) = n1"
    and "c_to_neuron (h_conns h' (h_next_conn h)) = n2"
    and "\<And>c. c \<noteq> h_next_conn h \<Longrightarrow> h_conns h' c = h_conns h c"
    and "\<And>n. n_outgoing (h_neurons h' n) =
            (if n = n1 then n_outgoing (h_neurons h n) @ [h_next_conn h] else n_outgoing (h_neurons h n))"
    and "\<And>n. n_incoming (h_neurons h' n) =
            (if n = n2 then n_incoming (h_neurons h n) @ [h_next_conn h] else n_incoming (h_neurons h n))"
    and "regions net' = regions net" and "all_neurons net' = all_neurons net"
    and "h_random h' = h_random h" and "h_random_pos h' = h_random_pos h"
  using assms
  by (auto simp add: add_connection_def new_Connection_def upd_neuron_def Let_def)

lemma count_list_notin: "x \<notin> set xs \<Longrightarrow> count_list xs x = 0"
  by (induction xs) auto

lemma add_connection_wired:
  assumes w: "wired N net h" and n1: "n1 \<in> N" and n2: "n2 \<in> N"
    and add: "add_connection n1 n2 (conn_id, net, h) = (conn_id', net', h')"
  shows "wired N net' h'"
proof -
  let ?c0 = "h_next_conn h"
  note eff = add_connection_effect [OF add]
  from w have alloc: "\<forall>c\<in>set (connections net). c < ?c0"
    and dist: "distinct (connections net)"
    and sub: "\<forall>n\<in>N. set (n_outgoing (h_neurons h n)) \<subseteq> set (connections net)
                \<and> set (n_incoming (h_neurons h n)) \<subseteq> set (connections net)"
    and ends: "\<forall>c\<in>set (connections net).
            c_from_neuron (h_conns h c) \<in> N \<and> c_to_neuron (h_conns h c) \<in> N
          \<and> (\<forall>n\<in>N. count_list (n_outgoing (h_neurons h n)) c
                         = (if n = c_from_neuron (h_conns h c) then 1 else 0)
                     \<and> count_list (n_incoming (h_neurons h n)) c
                         = (if n = c_to_neuron (h_conns h c) then 1 else 0))"
    by (simp_all add: wired_def)
  have fresh: "?c0 \<notin> set (connections net)" using alloc by auto
  have fresh_out: "count_list (n_outgoing (h_neurons h n)) ?c0 = 0" if "n \<in> N" for n
    using sub that fresh by (intro count_list_notin) auto
  have fresh_in: "count_list (n_incoming (h_neurons h n)) ?c0 = 0" if "n \<in> N" for n
    using sub that fresh by (intro count_list_notin) auto
  have a: "\<forall>c\<in>set (connections net'). c < h_next_conn h'"
    using alloc by (auto simp add: eff(1,2) less_Suc_eq)
  have b: "distinct (connections net')" using dist fresh by (simp add: eff(1))
  have c: "\<forall>n\<in>N. set (n_outgoing (h_neurons h' n)) \<subseteq> set (connections net')
                \<and> set (n_incoming (h_neurons h' n)) \<subseteq> set (connections net')"
    using sub by (auto simp add: eff(1,6,7))
  have d: "c_from_neuron (h_conns h' c) \<in> N \<and> c_to_neuron (h_conns h' c) \<in> N
          \<and> (\<forall>n\<in>N. count_list (n_outgoing (h_neurons h' n)) c
                         = (if n = c_from_neuron (h_conns h' c) then 1 else 0)
                     \<and> count_list (n_incoming (h_neurons h' n)) c
                         = (if n = c_to_neuron (h_conns h' c) then 1 else 0))"
    if c: "c \<in> set (connections net')" for c
  proof (cases "c = ?c0")
    case True
    show ?thesis
      unfolding True eff(3,4) using n1 n2 fresh_out fresh_in by (simp add: eff(6,7))
  next
    case False
    with c have old: "c \<in> set (connections net)" by (simp add: eff(1))
    have same: "h_conns h' c = h_conns h c" using False by (rule eff(5))
    from ends old have e: "c_from_neuron (h_conns h c) \<in> N" "c_to_neuron (h_conns h c) \<in> N"
      "\<And>n. n \<in> N \<Longrightarrow> count_list (n_outgoing (h_neurons h n)) c
                         = (if n = c_from_neuron (h_conns h c) then 1 else 0)"
      "\<And>n. n \<in> N \<Longrightarrow> count_list (n_incoming (h_neurons h n)) c
                         = (if n = c_to_neuron (h_conns h c) then 1 else 0)"
      by blast+
    have o: "count_list (n_outgoing (h_neurons h' n)) c = count_list (n_outgoing (h_neurons h n)) c" for n
      using False by (simp add: eff(6))
    have i: "count_list (n_incoming (h_neurons h' n)) c = count_list (n_incoming (h_neurons h n)) c" for n
      using False by (simp add: eff(7))
    show ?thesis
      by (simp only: same o i) (use e in blast)
  qed
  from a b c d show ?thesis unfolding wired_def by blast
qed

lemma wired_random_pos [simp]: "wired N net (h\<lparr>h_random_pos := k\<rparr>) = wired N net h"
  by (simp add: wired_def)

lemma add_connection_wired_state:
  "wired_state N st \<Longrightarrow> n1 \<in> N \<Longrightarrow> n2 \<in> N \<Longrightarrow> wired_state N (add_connection n1 n2 st)"
proof -
  assume w: "wired_state N st" and n: "n1 \<in> N" "n2 \<in> N"
  obtain conn_id net h where st: "st = (conn_id, net, h)" by (cases st)
  obtain conn_id' net' h' where r: "add_connection n1 n2 (conn_id, net, h) = (conn_id', net', h')"
    by (cases "add_connection n1 n2 (conn_id, net, h)")
  from w have "wired N net h" by (simp add: wired_state_def st)
  from add_connection_wired [OF this n r] show ?thesis
    by (simp add: wired_state_def st r)
qed

lemma wired_state_draw:
  "wired_state N (conn_id, net, h) \<Longrightarrow> wired_state N (conn_id, net, snd (random_random h))"
  by (simp add: wired_state_def random_random_def)

lemma intra_pair_wired:
  assumes "wired_state N st" and "snd p1 \<in> N" and "snd p2 \<in> N"
  shows "wired_state N (intra_pair p1 p2 st)"
proof -
  obtain i n1 where p1: "p1 = (i, n1)" by (cases p1)
  obtain j n2 where p2: "p2 = (j, n2)" by (cases p2)
  obtain conn_id net h where st: "st = (conn_id, net, h)" by (cases st)
  have d: "wired_state N (conn_id, net, snd (random_random h))"
    using assms(1) unfolding st by (rule wired_state_draw)
  from add_connection_wired_state [OF d, of n1 n2] assms(2,3) d assms(1)
  show ?thesis
    by (simp add: intra_pair_def p1 p2 st case_prod_unfold Let_def)
qed

lemma inter_pair_wired:
  assumes "wired_state N st" and "n1 \<in> N" and "n2 \<in> N"
  shows "wired_state N (inter_pair n1 n2 st)"
proof -
  obtain conn_id net h where st: "st = (conn_id, net, h)" by (cases st)
  have d: "wired_state N (conn_id, net, snd (random_random h))"
    using assms(1) unfolding st by (rule wired_state_draw)
  from add_connection_wired_state [OF d assms(2,3)] d
  show ?thesis
    by (simp add: inter_pair_def st case_prod_unfold Let_def)
qed

lemma fold_wired:
  assumes "\<And>x st. x \<in> set xs \<Longrightarrow> wired_state N st \<Longrightarrow> wired_state N (f x st)"
    and "wired_state N st"
  shows "wired_state N (fold f xs st)"
  using assms by (induction xs arbitrary: st) simp_all

lemma intra_region_wired:
  assumes "wired_state N st" and "set (r_neurons r) \<subseteq> N"
  shows "wired_state N (intra_region r st)"
proof -
  have mem: "snd p \<in> N" if "p \<in> set (enumerate 0 (r_neurons r))" for p
  proof -
    from that have "fst p < length (r_neurons r)" "r_neurons r ! fst p = snd p"
      by (simp_all add: in_set_enumerate_eq)
    then have "snd p \<in> set (r_neurons r)" by (metis nth_mem)
    with assms(2) show ?thesis by blast
  qed
  show ?thesis
    unfolding intra_region_def
    by (intro fold_wired intra_pair_wired mem assms(1))
qed

lemma inter_region_wired:
  assumes "wired_state N st" and "set (r_neurons r1) \<subseteq> N" and "set (r_neurons r2) \<subseteq> N"
  shows "wired_state N (inter_region r1 r2 st)"
  unfolding inter_region_def
  using assms(2,3) by (intro fold_wired inter_pair_wired assms(1)) auto

lemma inter_regions_wired:
  assumes "wired_state N st" and "\<forall>(rid, r)\<in>set rs. set (r_neurons r) \<subseteq> N"
  shows "wired_state N (inter_regions rs st)"
  using assms
proof (induction rs arbitrary: st)
  case Nil
  then show ?case by simp
next
  case (Cons p rs)
  obtain id1 r1 where p: "p = (id1, r1)" by (cases p)
  from Cons.prems(2) have r1: "set (r_neurons r1) \<subseteq> N"
    and rest: "\<forall>(rid, r)\<in>set rs. set (r_neurons r) \<subseteq> N" by (auto simp: p)
  have "wired_state N (fold (\<lambda>(id2, r2). inter_region r1 r2) rs st)"
  proof (rule fold_wired [OF _ Cons.prems(1)])
    fix x st' assume x: "x \<in> set rs" and w: "wired_state N st'"
    obtain id2 r2 where x2: "x = (id2, r2)" by (cases x)
    with x rest have "set (r_neurons r2) \<subseteq> N" by auto
    from inter_region_wired [OF w r1 this]
    show "wired_state N ((case x of (id2, r2) \<Rightarrow> inter_region r1 r2) st')" by (simp add: x2)
  qed
  from Cons.IH [OF this rest] show ?case by (simp add: p)
qed

lemma Network_create_connections_wired:
  assumes "wired N net h" and "\<forall>(rid, r)\<in>set (regions net). set (r_neurons r) \<subseteq> N"
    and "Network_create_connections (net, h) = (net', h')"
  shows "wired N net' h'"
proof -
  let ?st1 = "fold intra_region (map snd (regions net)) (0, net, h)"
  have 0: "wired_state N (0, net, h)" using assms(1) by (simp add: wired_state_def)
  have 1: "wired_state N ?st1"
  proof (rule fold_wired [OF _ 0])
    fix r st' assume "r \<in> set (map snd (regions net))" and w: "wired_state N st'"
    then obtain rid where "(rid, r) \<in> set (regions net)" by auto
    with assms(2) have "set (r_neurons r) \<subseteq> N" by blast
    with w show "wired_state N (intra_region r st')" by (rule intra_region_wired)
  qed
  have "wired_state N (inter_regions (regions net) ?st1)"
    using 1 assms(2) by (rule inter_regions_wired)
  with assms(3) show ?thesis
    by (simp add: Network_create_connections_def wired_state_def Let_def case_prod_unfold)
qed

subsection \<open>Topology generation: the constructed network\<close>

lemma generate_neuron_effect:
  assumes "generate_neuron i (r, h) = (r', h')"
  shows "r_neurons r' = r_neurons r @ [h_next_neuron h]"
    and "h_next_neuron h' = Suc (h_next_neuron h)"
    and "\<And>n. n \<noteq> h_next_neuron h \<Longrightarrow> h_neurons h' n = h_neurons h n"
    and "n_outgoing (h_neurons h' (h_next_neuron h)) = []"
    and "n_incoming (h_neurons h' (h_next_neuron h)) = []"
    and "h_next_conn h' = h_next_conn h" and "h_conns h' = h_conns h"
    and "h_random h' = h_random h" and "h_random_pos h' = h_random_pos h + 3"
proof -
  have r': "r' = fst (generate_neuron i (r, h))" and h': "h' = snd (generate_neuron i (r, h))"
    by (simp_all add: assms)
  note defs = generate_neuron_def random_random_def random_uniform_def new_Neuron_def
        Let_def case_prod_unfold
  show "r_neurons r' = r_neurons r @ [h_next_neuron h]" unfolding r' by (simp add: defs)
  show "h_next_neuron h' = Suc (h_next_neuron h)" unfolding h' by (simp add: defs)
  show "\<And>n. n \<noteq> h_next_neuron h \<Longrightarrow> h_neurons h' n = h_neurons h n"
    unfolding h' by (simp add: defs)
  show "n_outgoing (h_neurons h' (h_next_neuron h)) = []" unfolding h' by (simp add: defs)
  show "n_incoming (h_neurons h' (h_next_neuron h)) = []" unfolding h' by (simp add: defs)
  show "h_next_conn h' = h_next_conn h" unfolding h' by (simp add: defs)
  show "h_conns h' = h_conns h" unfolding h' by (simp add: defs)
  show "h_random h' = h_random h" unfolding h' by (simp add: defs)
  show "h_random_pos h' = h_random_pos h + 3" unfolding h' by (simp add: defs)
qed

lemma fold_generate_neuron:
  assumes "fold generate_neuron is (r, h) = (r', h')" and "unwired (S \<union> set (r_neurons r)) h"
  shows "unwired (S \<union> set (r_neurons r')) h'
       \<and> length (r_neurons r') = length (r_neurons r) + length is
       \<and> h_next_conn h' = h_next_conn h \<and> h_conns h' = h_conns h
       \<and> h_random h' = h_random h \<and> h_random_pos h' = h_random_pos h + 3 * length is"
  using assms
proof (induction "is" arbitrary: r h)
  case Nil
  then show ?case by simp
next
  case (Cons i "is")
  obtain r1 h1 where g: "generate_neuron i (r, h) = (r1, h1)" by (cases "generate_neuron i (r, h)")
  note eff = generate_neuron_effect [OF g]
  have u1: "unwired (S \<union> set (r_neurons r1)) h1"
    unfolding unwired_def
  proof
    fix n assume n: "n \<in> S \<union> set (r_neurons r1)"
    show "n < h_next_neuron h1 \<and> n_outgoing (h_neurons h1 n) = [] \<and> n_incoming (h_neurons h1 n) = []"
    proof (cases "n = h_next_neuron h")
      case True
      then show ?thesis by (simp add: eff(2,4,5))
    next
      case False
      with n have "n \<in> S \<union> set (r_neurons r)" by (simp add: eff(1))
      with Cons.prems(2) have "n < h_next_neuron h \<and> n_outgoing (h_neurons h n) = []
          \<and> n_incoming (h_neurons h n) = []" by (simp add: unwired_def)
      with False show ?thesis by (simp add: eff(2) eff(3) [OF False])
    qed
  qed
  from Cons.prems(1) have "fold generate_neuron is (r1, h1) = (r', h')" by (simp add: g)
  from Cons.IH [OF this u1] show ?case by (simp add: eff)
qed

lemma Region_generate_neurons_effect:
  assumes "Region_generate_neurons b (r, h) = Inr (r', h')" and "unwired (S \<union> set (r_neurons r)) h"
  shows "unwired (S \<union> set (r_neurons r')) h'
       \<and> length (r_neurons r') = length (r_neurons r) + nat (r_neuron_count r)
       \<and> h_next_conn h' = h_next_conn h \<and> h_conns h' = h_conns h
       \<and> h_random h' = h_random h
       \<and> h_random_pos h' = h_random_pos h + 3 * nat (r_neuron_count r)"
proof -
  from assms(1) obtain r1 where
    f: "fold generate_neuron [0..<nat (r_neuron_count r)] (r1, h) = (r', h')"
    and r1: "r_neurons r1 = r_neurons r"
    by (auto simp add: Region_generate_neurons_def Let_def split: sum.splits)
  from fold_generate_neuron [OF f, of S] assms(2) r1 show ?thesis by simp
qed

lemma Region_generate_neurons_succeeds:
  assumes "map_of b ''x'' \<noteq> None" "map_of b ''y'' \<noteq> None"
    "map_of b ''width'' \<noteq> None" "map_of b ''height'' \<noteq> None"
  shows "\<exists>r' h'. Region_generate_neurons b (r, h) = Inr (r', h')"
  using assms
  by (auto simp add: Region_generate_neurons_def dict_getitem_def Let_def)

lemma dict_setitem_set: "set (dict_setitem d k v) \<subseteq> insert (k, v) (set d)"
  by (induction d) (auto split: if_splits)

lemma dict_setitem_nonempty [simp]: "dict_setitem d k v \<noteq> []"
  by (cases d) (auto split: if_splits)

lemma region_neurons_setitem:
  "region_neurons (dict_setitem d k r) \<subseteq> region_neurons d \<union> set (r_neurons r)"
  using dict_setitem_set [of d k r] by (auto simp add: region_neurons_def)

lemma unwired_mono: "unwired S h \<Longrightarrow> T \<subseteq> S \<Longrightarrow> unwired T h"
  by (auto simp add: unwired_def)

lemma create_regions_effect:
  assumes "create_regions cat (net, h) = Inr (net1, h1)"
    and "unwired (region_neurons (regions net)) h"
  shows "unwired (region_neurons (regions net1)) h1
       \<and> connections net1 = connections net \<and> all_neurons net1 = all_neurons net
       \<and> h_next_conn h1 = h_next_conn h \<and> h_random h1 = h_random h"
  using assms
proof (induction cat arbitrary: net h)
  case Nil
  then show ?case by simp
next
  case (Cons p cat)
  obtain id' config where p: "p = (id', config)" by (cases p)
  obtain region where ri: "Region_init id' (cfg_name config) (cfg_color config)
      (cfg_position config) (cfg_size config) 60 = Inr region" and empty: "r_neurons region = []"
    by (simp add: Region_init_def)
  from Cons.prems(1) obtain region' h' where
    g: "Region_generate_neurons (bounds net) (region, h) = Inr (region', h')"
    and rest: "create_regions cat (net\<lparr>regions := dict_setitem (regions net) id' region'\<rparr>, h')
                = Inr (net1, h1)"
    by (auto simp add: p ri split: sum.splits)
  have "unwired (region_neurons (regions net) \<union> set (r_neurons region)) h"
    using Cons.prems(2) by (simp add: empty)
  from Region_generate_neurons_effect [OF g this]
  have u: "unwired (region_neurons (regions net) \<union> set (r_neurons region')) h'"
    and same: "h_next_conn h' = h_next_conn h" "h_random h' = h_random h" by simp_all
  have "unwired (region_neurons (regions (net\<lparr>regions := dict_setitem (regions net) id' region'\<rparr>))) h'"
    using unwired_mono [OF u] region_neurons_setitem [of "regions net" id' region'] by simp
  from Cons.IH [OF rest this] same show ?case by simp
qed

lemma create_regions_succeeds:
  assumes "map_of (bounds net) ''x'' \<noteq> None" "map_of (bounds net) ''y'' \<noteq> None"
    "map_of (bounds net) ''width'' \<noteq> None" "map_of (bounds net) ''height'' \<noteq> None"
  shows "\<exists>net1 h1. create_regions cat (net, h) = Inr (net1, h1)"
  using assms
proof (induction cat arbitrary: net h)
  case Nil
  show ?case by simp
next
  case (Cons p cat)
  obtain id' config where p: "p = (id', config)" by (cases p)
  obtain region where ri: "Region_init id' (cfg_name config) (cfg_color config)
      (cfg_position config) (cfg_size config) 60 = Inr region"
    by (simp add: Region_init_def)
  from Region_generate_neurons_succeeds [OF Cons.prems, of region h]
  obtain region' h' where g: "Region_generate_neurons (bounds net) (region, h) = Inr (region', h')"
    by blast
  from Cons.IH [of "net\<lparr>regions := dict_setitem (regions net) id' region'\<rparr>" h'] Cons.prems
  show ?case by (simp add: p ri g)
qed

lemma collect_all_neurons:
  "all_neurons (fold (\<lambda>region n. n\<lparr>all_neurons := all_neurons n @ r_neurons region\<rparr>) rs net)
     = all_neurons net @ concat (map r_neurons rs)"
  "connections (fold (\<lambda>region n. n\<lparr>all_neurons := all_neurons n @ r_neurons region\<rparr>) rs net)
     = connections net"
  "regions (fold (\<lambda>region n. n\<lparr>all_neurons := all_neurons n @ r_neurons region\<rparr>) rs net)
     = regions net"
  by (induction rs arbitrary: net) simp_all

lemma Network_create_connections_all_neurons:
  "all_neurons (fst (Network_create_connections (net, h))) = all_neurons net"
proof -
  have add: "all_neurons (fst (snd (add_connection n1 n2 st))) = all_neurons (fst (snd st))" for n1 n2 st
    by (cases st) (simp add: add_connection_def new_Connection_def Let_def)
  have intra: "all_neurons (fst (snd (intra_pair p1 p2 st))) = all_neurons (fst (snd st))" for p1 p2 st
    by (cases st; cases p1; cases p2) (simp add: intra_pair_def add Let_def case_prod_unfold)
  have inter: "all_neurons (fst (snd (inter_pair n1 n2 st))) = all_neurons (fst (snd st))" for n1 n2 st
    by (cases st) (simp add: inter_pair_def add Let_def case_prod_unfold)
  have fold_same: "all_neurons (fst (snd (fold f xs st))) = all_neurons (fst (snd st))"
    if "\<And>x st. all_neurons (fst (snd (f x st))) = all_neurons (fst (snd st))"
    for f :: "'a \<Rightarrow> build_state \<Rightarrow> build_state" and xs st
    using that by (induction xs arbitrary: st) simp_all
  have ir: "all_neurons (fst (snd (intra_region r st))) = all_neurons (fst (snd st))" for r st
    unfolding intra_region_def by (intro fold_same intra)
  have er: "all_neurons (fst (snd (inter_region r1 r2 st))) = all_neurons (fst (snd st))" for r1 r2 st
    unfolding inter_region_def by (intro fold_same inter)
  have ers: "all_neurons (fst (snd (inter_regions rs st))) = all_neurons (fst (snd st))" for rs st
  proof (induction rs arbitrary: st)
    case Nil
    show ?case by simp
  next
    case (Cons p rs)
    have "all_neurons (fst (snd (fold (\<lambda>(id2, r2). inter_region (snd p) r2) rs st)))
            = all_neurons (fst (snd st))"
      by (intro fold_same) (simp add: case_prod_unfold er)
    with Cons.IH show ?case by (cases p) simp
  qed
  have "all_neurons (fst (snd (fold intra_region (map snd (regions net)) (0, net, h)))) = all_neurons net"
    using fold_same [of intra_region "map snd (regions net)" "(0, net, h)"] ir by simp
  then show ?thesis
    by (simp add: Network_create_connections_def Let_def case_prod_unfold ers)
qed

lemma distinct_count_list_1: "distinct xs \<Longrightarrow> x \<in> set xs \<Longrightarrow> count_list xs x = 1"
  by (induction xs) auto

lemma wired_topology_ok:
  assumes "wired (set (all_neurons net)) net h"
  shows "topology_ok net h"
proof -
  from assms have d: "distinct (connections net)" by (simp add: wired_def)
  have "count_list (connections net) c = 1" if "c \<in> set (connections net)" for c
    using d that by (rule distinct_count_list_1)
  with assms show ?thesis
    unfolding topology_ok_def wired_def by blast
qed

lemma Network_init_wired:
  assumes "Network_init bounds' h = Inr (net, h')"
  shows "wired (set (all_neurons net)) net h'"
proof -
  let ?net0 = "\<lparr>bounds = (case bounds' of None \<Rightarrow> default_bounds
                   | Some b \<Rightarrow> if b = [] then default_bounds else b),
         regions = [], hub = None, connections = [], all_neurons = [],
         total_signals = 0, firing_rate = 0, active_neurons = 0\<rparr>"
  from assms obtain net1 h1 where
    cr: "create_regions DEFAULT_REGIONS (?net0, h) = Inr (net1, h1)"
    and cc: "Network_create_connections
        (fold (\<lambda>region n. n\<lparr>all_neurons := all_neurons n @ r_neurons region\<rparr>)
           (map snd (regions net1)) net1, h1) = (net, h')"
    by (auto simp add: Network_init_def Network_initialize_def Let_def split: sum.splits)
  let ?net2 = "fold (\<lambda>region n. n\<lparr>all_neurons := all_neurons n @ r_neurons region\<rparr>)
           (map snd (regions net1)) net1"
  have "unwired (region_neurons (regions ?net0)) h" by (simp add: region_neurons_def unwired_def)
  from create_regions_effect [OF cr this]
  have u: "unwired (region_neurons (regions net1)) h1"
    and c1: "connections net1 = []" and a1: "all_neurons net1 = []" by simp_all
  have all2: "set (all_neurons ?net2) = region_neurons (regions net1)"
    by (auto simp add: collect_all_neurons a1 region_neurons_def)
  have reg2: "regions ?net2 = regions net1" and con2: "connections ?net2 = []"
    by (simp_all add: collect_all_neurons c1)
  have w2: "wired (set (all_neurons ?net2)) ?net2 h1"
    using u unfolding wired_def all2 con2 by (simp add: unwired_def)
  have sub: "\<forall>(rid, r)\<in>set (regions ?net2). set (r_neurons r) \<subseteq> set (all_neurons ?net2)"
    unfolding reg2 all2 by (auto simp add: region_neurons_def)
  have "wired (set (all_neurons ?net2)) net h'"
    by (rule Network_create_connections_wired [OF w2 sub cc])
  moreover have "all_neurons net = all_neurons ?net2"
    using Network_create_connections_all_neurons [of ?net2 h1] cc by simp
  ultimately show ?thesis by simp
qed

text \<open>
  Claim C9. Whenever the construction of a \<^verbatim>\<open>Network\<close> returns, whatever the store (and so the
  outcomes of the random draws) it started from, every connection of the network's
  collection occurs exactly once in the collection, exactly once in the outgoing list of its
  source neuron and in no other neuron's outgoing list, exactly once in the incoming list of
  its destination neuron and in no other neuron's incoming list; and no neuron of the network
  lists a connection that is not in the collection. With the default bounds the construction
  always returns.
\<close>

theorem topology_after_construction:
  "(Network_init bounds' h = Inr (net, h') \<longrightarrow> topology_ok net h')
   \<and> (\<exists>net0 h0. Network_init None h = Inr (net0, h0))"
proof
  show "Network_init bounds' h = Inr (net, h') \<longrightarrow> topology_ok net h'"
    by (intro impI wired_topology_ok Network_init_wired)
  have "\<exists>net1 h1. create_regions DEFAULT_REGIONS
      (\<lparr>bounds = default_bounds, regions = [], hub = None, connections = [], all_neurons = [],
         total_signals = 0, firing_rate = 0, active_neurons = 0\<rparr>, h) = Inr (net1, h1)"
    by (rule create_regions_succeeds) (simp_all add: default_bounds_def)
  then show "\<exists>net0 h0. Network_init None h = Inr (net0, h0)"
    by (auto simp add: Network_init_def Network_initialize_def Let_def case_prod_unfold)
qed

subsection \<open>Topology generation: a connection of a constructed network\<close>

lemma add_connection_has_conn:
  "has_conn c st \<Longrightarrow> has_conn c (add_connection n1 n2 st)"
  by (cases st) (simp add: has_conn_def add_connection_def new_Connection_def Let_def)

lemma intra_pair_has_conn: "has_conn c st \<Longrightarrow> has_conn c (intra_pair p1 p2 st)"
proof -
  assume h: "has_conn c st"
  obtain conn_id net hp where st: "st = (conn_id, net, hp)" by (cases st)
  have "has_conn c (conn_id, net, snd (random_random hp))" using h by (simp add: has_conn_def st)
  from add_connection_has_conn [OF this] this h show ?thesis
    by (cases p1; cases p2) (simp add: intra_pair_def st Let_def case_prod_unfold)
qed

lemma inter_pair_has_conn: "has_conn c st \<Longrightarrow> has_conn c (inter_pair n1 n2 st)"
proof -
  assume h: "has_conn c st"
  obtain conn_id net hp where st: "st = (conn_id, net, hp)" by (cases st)
  have "has_conn c (conn_id, net, snd (random_random hp))" using h by (simp add: has_conn_def st)
  from add_connection_has_conn [OF this] this show ?thesis
    by (simp add: inter_pair_def st Let_def case_prod_unfold)
qed

lemma fold_has_conn:
  assumes "\<And>x st. has_conn c st \<Longrightarrow> has_conn c (f x st)" and "has_conn c st"
  shows "has_conn c (fold f xs st)"
  using assms by (induction xs arbitrary: st) simp_all

lemma intra_region_has_conn: "has_conn c st \<Longrightarrow> has_conn c (intra_region r st)"
  unfolding intra_region_def by (intro fold_has_conn intra_pair_has_conn)

lemma inter_region_has_conn: "has_conn c st \<Longrightarrow> has_conn c (inter_region r1 r2 st)"
  unfolding inter_region_def by (intro fold_has_conn inter_pair_has_conn)

lemma inter_regions_has_conn: "has_conn c st \<Longrightarrow> has_conn c (inter_regions rs st)"
proof (induction rs arbitrary: st)
  case Nil
  then show ?case by simp
next
  case (Cons p rs)
  have "has_conn c (fold (\<lambda>(id2, r2). inter_region (snd p) r2) rs st)"
    by (intro fold_has_conn Cons.prems) (simp add: case_prod_unfold inter_region_has_conn)
  from Cons.IH [OF this] show ?case by (cases p) simp
qed

text \<open>The first pair of distinct neurons of the first region is connected when the draw made
  for it is below 0.15.\<close>

lemma intra_region_first:
  assumes "r_neurons r = a # b # ns" and "h_random h (h_random_pos h) < 0.15"
  shows "has_conn (h_next_conn h) (intra_region r (conn_id, net, h))"
proof -
  let ?e = "enumerate 0 (a # b # ns)"
  have e: "?e = (0, a) # (1, b) # enumerate 2 ns" by (simp add: numeral_2_eq_2)
  have skip: "intra_pair (0, a) (0, a) (conn_id, net, h) = (conn_id, net, h)"
    by (simp add: intra_pair_def)
  have "has_conn (h_next_conn h) (intra_pair (0, a) (1, b) (conn_id, net, h))"
    using assms(2)
    by (simp add: intra_pair_def random_random_def add_connection_def new_Connection_def
          has_conn_def Let_def)
  then have "has_conn (h_next_conn h) (fold (intra_pair (0, a)) ?e (conn_id, net, h))"
    unfolding e by (simp add: skip fold_has_conn intra_pair_has_conn)
  then have "has_conn (h_next_conn h)
      (fold (\<lambda>p1. fold (intra_pair p1) ?e) ?e (conn_id, net, h))"
    by (subst (2) e) (simp add: fold_has_conn intra_pair_has_conn)
  then show ?thesis by (simp add: intra_region_def assms(1))
qed

lemma Network_create_connections_first:
  assumes "regions net = (rid, r) # rest" and "r_neurons r = a # b # ns"
    and "h_random h (h_random_pos h) < 0.15"
  shows "h_next_conn h \<in> set (connections (fst (Network_create_connections (net, h))))"
proof -
  have "has_conn (h_next_conn h) (intra_region r (0, net, h))"
    using assms(2,3) by (rule intra_region_first)
  then have "has_conn (h_next_conn h) (fold intra_region (map snd (regions net)) (0, net, h))"
    by (simp add: assms(1) fold_has_conn intra_region_has_conn)
  then have "has_conn (h_next_conn h)
      (inter_regions (regions net) (fold intra_region (map snd (regions net)) (0, net, h)))"
    by (rule inter_regions_has_conn)
  then show ?thesis
    by (simp add: Network_create_connections_def has_conn_def Let_def case_prod_unfold)
qed

lemma create_regions_sizes:
  assumes "create_regions cat (net, h) = Inr (net1, h1)"
    and "\<forall>(rid, r)\<in>set (regions net). length (r_neurons r) = 60"
  shows "(\<forall>(rid, r)\<in>set (regions net1). length (r_neurons r) = 60)
       \<and> (cat \<noteq> [] \<or> regions net \<noteq> [] \<longrightarrow> regions net1 \<noteq> [])"
  using assms
proof (induction cat arbitrary: net h)
  case Nil
  then show ?case by simp
next
  case (Cons p cat)
  obtain id' config where p: "p = (id', config)" by (cases p)
  obtain region where ri: "Region_init id' (cfg_name config) (cfg_color config)
      (cfg_position config) (cfg_size config) 60 = Inr region" and empty: "r_neurons region = []"
      and cnt: "r_neuron_count region = 60"
    by (simp add: Region_init_def)
  from Cons.prems(1) obtain region' h' where
    g: "Region_generate_neurons (bounds net) (region, h) = Inr (region', h')"
    and rest: "create_regions cat (net\<lparr>regions := dict_setitem (regions net) id' region'\<rparr>, h')
                = Inr (net1, h1)"
    by (auto simp add: p ri split: sum.splits)
  have "unwired ({} \<union> set (r_neurons region)) h" by (simp add: empty unwired_def)
  from Region_generate_neurons_effect [OF g this]
  have len: "length (r_neurons region') = 60" by (simp add: empty cnt)
  have "\<forall>(rid, r)\<in>set (regions (net\<lparr>regions := dict_setitem (regions net) id' region'\<rparr>)).
          length (r_neurons r) = 60"
    using Cons.prems(2) len dict_setitem_set [of "regions net" id' region'] by auto
  from Cons.IH [OF rest this] show ?case by simp
qed

lemma Network_init_first_connection:
  assumes "Network_init None h = Inr (net, h')" and "\<forall>k. h_random h k < 0.15"
  shows "h_next_conn h \<in> set (connections net)"
proof -
  let ?net0 = "\<lparr>bounds = default_bounds,
         regions = [], hub = None, connections = [], all_neurons = [],
         total_signals = 0, firing_rate = 0, active_neurons = 0\<rparr>"
  from assms(1) obtain net1 h1 where
    cr: "create_regions DEFAULT_REGIONS (?net0, h) = Inr (net1, h1)"
    and cc: "Network_create_connections
        (fold (\<lambda>region n. n\<lparr>all_neurons := all_neurons n @ r_neurons region\<rparr>)
           (map snd (regions net1)) net1, h1) = (net, h')"
    by (auto simp add: Network_init_def Network_initialize_def Let_def split: sum.splits)
  let ?net2 = "fold (\<lambda>region n. n\<lparr>all_neurons := all_neurons n @ r_neurons region\<rparr>)
           (map snd (regions net1)) net1"
  have "unwired (region_neurons (regions ?net0)) h" by (simp add: region_neurons_def unwired_def)
  from create_regions_effect [OF cr this]
  have nc: "h_next_conn h1 = h_next_conn h" and rnd: "h_random h1 = h_random h" by simp_all
  from create_regions_sizes [OF cr]
  have sizes: "\<forall>(rid, r)\<in>set (regions net1). length (r_neurons r) = 60"
    and ne: "regions net1 \<noteq> []" by (simp_all add: DEFAULT_REGIONS_def)
  from ne obtain rid r rest where regs: "regions net1 = (rid, r) # rest"
    by (cases "regions net1") auto
  with sizes have "length (r_neurons r) = 60" by simp
  then obtain a b ns where rn: "r_neurons r = a # b # ns"
    by (cases "r_neurons r"; cases "tl (r_neurons r)") auto
  have regs2: "regions ?net2 = (rid, r) # rest" by (simp add: collect_all_neurons regs)
  have "h_random h1 (h_random_pos h1) < 0.15" using assms(2) rnd by simp
  from Network_create_connections_first [OF regs2 rn this] cc nc
  show ?thesis by simp
qed

theorem topology_after_construction_witness:
  "\<exists>net h'. Network_init None empty_heap = Inr (net, h')
     \<and> 0 \<in> set (connections net)
     \<and> count_list (connections net) 0 = 1
     \<and> c_from_neuron (h_conns h' 0) \<in> set (all_neurons net)
     \<and> c_to_neuron (h_conns h' 0) \<in> set (all_neurons net)
     \<and> count_list (n_outgoing (h_neurons h' (c_from_neuron (h_conns h' 0)))) 0 = 1
     \<and> count_list (n_incoming (h_neurons h' (c_to_neuron (h_conns h' 0)))) 0 = 1"
proof -
  from topology_after_construction [of None empty_heap]
  obtain net h' where init: "Network_init None empty_heap = Inr (net, h')" by blast
  with topology_after_construction [of None empty_heap net h']
  have ok: "topology_ok net h'" by blast
  have "\<forall>k. h_random empty_heap k < 0.15" by (simp add: empty_heap_def)
  from Network_init_first_connection [OF init this]
  have mem: "0 \<in> set (connections net)" by (simp add: empty_heap_def)
  from ok mem have
    1: "count_list (connections net) 0 = 1"
    and 2: "c_from_neuron (h_conns h' 0) \<in> set (all_neurons net)"
    and 3: "c_to_neuron (h_conns h' 0) \<in> set (all_neurons net)"
    and 4: "\<forall>n\<in>set (all_neurons net).
              count_list (n_outgoing (h_neurons h' n)) 0
                = (if n = c_from_neuron (h_conns h' 0) then 1 else 0)
            \<and> count_list (n_incoming (h_neurons h' n)) 0
                = (if n = c_to_neuron (h_conns h' 0) then 1 else 0)"
    unfolding topology_ok_def by blast+
  from 4 2 have 5: "count_list (n_outgoing (h_neurons h' (c_from_neuron (h_conns h' 0)))) 0 = 1"
    by simp
  from 4 3 have 6: "count_list (n_incoming (h_neurons h' (c_to_neuron (h_conns h' 0)))) 0 = 1"
    by simp
  from init mem 1 2 3 5 6 show ?thesis by blast
qed

subsection \<open>Constructors accept invalid numbers\<close>

text \<open>
  Claim C1, amended. Constructing a \<^verbatim>\<open>Region\<close> or a \<^verbatim>\<open>CentralHub\<close> (with its default
  \<^verbatim>\<open>output_size\<close> of 4) with a negative neuron count, or a \<^verbatim>\<open>HebbianLearning\<close> or a
  \<^verbatim>\<open>RewardBasedLearning\<close> with \<open>min_weight > max_weight\<close>, raises no error: the constructor
  returns the object, with these values stored as they were given, neither rejected nor
  clamped.
\<close>

theorem constructors_store_invalid_numbers:
  "(neuron_count < 0 \<longrightarrow>
      (\<exists>r. Region_init id' name color relative_position relative_size neuron_count = Inr r
           \<and> r_neuron_count r = neuron_count)
      \<and> (\<exists>hb. CentralHub_init hub_position hub_size neuron_count 4 = Inr hb
           \<and> hub_neuron_count hb = neuron_count))
   \<and> (max_weight < min_weight \<longrightarrow>
      (\<exists>alg. HebbianLearning_init learning_rate decay_rate max_weight min_weight = Inr alg
           \<and> hl_max_weight alg = max_weight \<and> hl_min_weight alg = min_weight)
      \<and> (\<exists>alg. RewardBasedLearning_init (net, h) learning_rate trace_decay max_weight min_weight
             = Inr alg
           \<and> rl_max_weight alg = max_weight \<and> rl_min_weight alg = min_weight))"
  by (simp add: Region_init_def CentralHub_init_def HebbianLearning_init_def
        RewardBasedLearning_init_def)

theorem constructors_store_invalid_numbers_witness:
  "(\<exists>r. Region_init ''frontal'' ''Frontal'' ''#00ffff'' (0.25, 0.25) 0.18 (- 60) = Inr r
        \<and> r_neuron_count r = - 60)
   \<and> (\<exists>hb. CentralHub_init (0.45, 0.45) 0.08 (- 60) 4 = Inr hb \<and> hub_neuron_count hb = - 60)
   \<and> (\<exists>alg. HebbianLearning_init 0.01 0.001 0.1 2 = Inr alg
        \<and> hl_max_weight alg = 0.1 \<and> hl_min_weight alg = 2)
   \<and> (\<exists>alg. RewardBasedLearning_init (sample_network, sample_heap) 0.01 0.9 0.1 2 = Inr alg
        \<and> rl_max_weight alg = 0.1 \<and> rl_min_weight alg = 2)"
  using constructors_store_invalid_numbers [where neuron_count = "- 60" and id' = "''frontal''"
      and name = "''Frontal''" and color = "''#00ffff''" and relative_position = "(0.25, 0.25)"
      and relative_size = "0.18" and hub_position = "(0.45, 0.45)" and hub_size = "0.08"
      and max_weight = "0.1" and min_weight = 2 and learning_rate = "0.01"
      and decay_rate = "0.001" and net = sample_network and h = sample_heap
      and trace_decay = "0.9"]
  by simp

text \<open>
  As the claim states it, these constructions fail with a configuration error. They return:
  weight bounds with \<open>min_weight = 3 > max_weight = 2\<close>, a region of \<open>- 5\<close> neurons and a hub of
  \<open>- 1\<close> neurons are accepted as they are.
\<close>

theorem constructors_counterexample:
  "HebbianLearning_init 0.01 0.001 2 3 = Inr (default_hebbian\<lparr>hl_min_weight := 3\<rparr>)
   \<and> Region_init ''frontal'' ''Frontal'' ''#00ffff'' (0.25, 0.25) 0.18 (- 5)
       = Inr (sample_region\<lparr>r_neuron_count := - 5, r_x := 0, r_y := 0, r_radius := 0,
                            r_neurons := []\<rparr>)
   \<and> CentralHub_init (0.45, 0.45) 0.08 (- 1) 4
       = Inr ((sample_hub 4)\<lparr>hub_neuron_count := - 1, hub_modulation_weights := []\<rparr>)"
  by (simp add: HebbianLearning_init_def default_hebbian_def Region_init_def sample_region_def
        CentralHub_init_def sample_hub_def)

end
